theory Spec2Isabelle
  imports Complex_Main "HOL-Library.Log_Nat" "HOL-Library.Multiset"
    "HOL-Library.Code_Target_Numeral"
begin

section \<open>JavaScript numbers\<close>

text \<open>
  The aggregator and the SaucerSwap quote compute with JavaScript numbers, which are
  IEEE-754 binary64 values. A finite double is modelled by the rational it denotes; the
  two zeros are identified (no operation of the modelled code tells them apart: the only
  divisors are an array length of at least one and the constant \<open>1e18\<close>, and
  \<open>toFixed\<close> prints both zeros without a sign). Every arithmetic operation computes
  the exact rational result and rounds it to the nearest double, ties to even.
\<close>

datatype number = Finite rat | PosInfinity | NegInfinity | NaN

text \<open>\<open>ilog2 q\<close> is the binary exponent of a positive rational: \<open>2^e \<le> q < 2^(e+1)\<close>.\<close>

definition ilog2 :: "rat \<Rightarrow> int" where
  "ilog2 q = (let (p, d) = quotient_of q; k = bitlen p - bitlen d
              in if of_int d * (2 powi k) \<le> (of_int p :: rat) then k else k - 1)"

definition round_half_even :: "rat \<Rightarrow> int" where
  "round_half_even x = (let n = \<lfloor>x\<rfloor>; f = x - of_int n
     in if f < 1 / 2 then n else if 1 / 2 < f then n + 1 else if even n then n else n + 1)"

text \<open>
  The spacing of the doubles around \<open>q\<close>: 53 significant bits, with the exponent
  clamped at \<open>-1022\<close> for the subnormal range.
\<close>

definition exponent :: "rat \<Rightarrow> int" where
  "exponent q = max (ilog2 \<bar>q\<bar>) (- 1022)"

definition quantum :: "rat \<Rightarrow> rat" where
  "quantum q = 2 powi (exponent q - 52)"

definition round_double :: "rat \<Rightarrow> number" where
  "round_double q = (if q = 0 then Finite 0 else
     let r = of_int (round_half_even (q / quantum q)) * quantum q
     in if 2 powi 1024 \<le> r then PosInfinity
        else if r \<le> - (2 powi 1024) then NegInfinity
        else Finite r)"

definition representable :: "rat \<Rightarrow> bool" where
  "representable q = (round_double q = Finite q)"

fun is_double :: "number \<Rightarrow> bool" where
  "is_double (Finite q) = representable q"
| "is_double _ = True"

fun num_neg :: "number \<Rightarrow> number" where
  "num_neg (Finite a) = Finite (- a)"
| "num_neg PosInfinity = NegInfinity"
| "num_neg NegInfinity = PosInfinity"
| "num_neg NaN = NaN"

fun num_add :: "number \<Rightarrow> number \<Rightarrow> number" where
  "num_add (Finite a) (Finite b) = round_double (a + b)"
| "num_add NaN y = NaN"
| "num_add x NaN = NaN"
| "num_add PosInfinity NegInfinity = NaN"
| "num_add NegInfinity PosInfinity = NaN"
| "num_add PosInfinity y = PosInfinity"
| "num_add NegInfinity y = NegInfinity"
| "num_add (Finite a) y = y"

definition num_sub :: "number \<Rightarrow> number \<Rightarrow> number" where
  "num_sub x y = num_add x (num_neg y)"

fun num_mul :: "number \<Rightarrow> number \<Rightarrow> number" where
  "num_mul (Finite a) (Finite b) = round_double (a * b)"
| "num_mul NaN y = NaN"
| "num_mul x NaN = NaN"
| "num_mul (Finite a) y = (if a = 0 then NaN else if 0 < a then y else num_neg y)"
| "num_mul x (Finite b) = (if b = 0 then NaN else if 0 < b then x else num_neg x)"
| "num_mul PosInfinity y = y"
| "num_mul NegInfinity y = num_neg y"

text \<open>
  Division. The divisors of the modelled code are positive and finite; a zero divisor is
  read as \<open>+0\<close>.
\<close>

definition num_div :: "number \<Rightarrow> number \<Rightarrow> number" where
  "num_div x y =
     (case (x, y) of
        (NaN, _) \<Rightarrow> NaN
      | (_, NaN) \<Rightarrow> NaN
      | (Finite a, Finite b) \<Rightarrow>
          if b = 0 then (if a = 0 then NaN else if 0 < a then PosInfinity else NegInfinity)
          else round_double (a / b)
      | (Finite a, _) \<Rightarrow> Finite 0
      | (_, Finite b) \<Rightarrow> if 0 \<le> b then x else num_neg x
      | (_, _) \<Rightarrow> NaN)"

text \<open>\<open>Math.floor\<close>.\<close>

fun Math_floor :: "number \<Rightarrow> number" where
  "Math_floor (Finite a) = Finite (of_int \<lfloor>a\<rfloor>)"
| "Math_floor x = x"

text \<open>Decimal digits of a natural number, most significant first.\<close>

fun decimal_digits :: "nat \<Rightarrow> string" where
  "decimal_digits n =
     (if n < 10 then [''0123456789'' ! n]
      else decimal_digits (n div 10) @ [''0123456789'' ! (n mod 10)])"

text \<open>Comparisons with zero, false on \<open>NaN\<close> as in JavaScript.\<close>

fun is_negative :: "number \<Rightarrow> bool" where
  "is_negative (Finite a) = (a < 0)"
| "is_negative NegInfinity = True"
| "is_negative x = False"

fun is_nonnegative :: "number \<Rightarrow> bool" where
  "is_nonnegative (Finite a) = (0 \<le> a)"
| "is_nonnegative PosInfinity = True"
| "is_nonnegative x = False"

definition num_le :: "number \<Rightarrow> number \<Rightarrow> bool" where
  "num_le x y =
     (case (x, y) of
        (NaN, _) \<Rightarrow> False
      | (_, NaN) \<Rightarrow> False
      | (Finite a, Finite b) \<Rightarrow> a \<le> b
      | (NegInfinity, _) \<Rightarrow> True
      | (_, PosInfinity) \<Rightarrow> True
      | (_, _) \<Rightarrow> False)"

section \<open>Strings and numbers\<close>

text \<open>
  A string is a list of characters with codes below 256. The white space \<open>parseFloat\<close>
  skips is, among these characters, the tab, the line feed, the vertical tab, the form
  feed, the carriage return, the space and the no-break space. \<open>parseFloat\<close> reads the
  longest prefix that is a decimal literal (an optional sign, then \<open>Infinity\<close> or
  digits with an optional fraction and exponent) and yields \<open>NaN\<close> when there is none;
  the value is the nearest double.
\<close>

definition is_digit :: "char \<Rightarrow> bool" where
  "is_digit c = (c \<in> set ''0123456789'')"

definition is_white :: "char \<Rightarrow> bool" where
  "is_white c =
     (c \<in> set [CHR 0x09, CHR 0x0A, CHR 0x0B, CHR 0x0C, CHR 0x0D, CHR '' '', CHR 0xA0])"

definition digit_value :: "char \<Rightarrow> nat" where
  "digit_value c = of_char c - 48"

definition digits_value :: "string \<Rightarrow> nat" where
  "digits_value ds = foldl (\<lambda>a c. 10 * a + digit_value c) 0 ds"

definition decimal_value :: "nat \<Rightarrow> int \<Rightarrow> number" where
  "decimal_value m e = round_double (of_nat m * 10 powi e)"

definition signed_integer :: "string \<Rightarrow> int option" where
  "signed_integer s =
     (case s of
        [] \<Rightarrow> None
      | c # r \<Rightarrow>
          if c = CHR ''+'' then
            (if takeWhile is_digit r = [] then None else Some (int (digits_value (takeWhile is_digit r))))
          else if c = CHR ''-'' then
            (if takeWhile is_digit r = [] then None else Some (- int (digits_value (takeWhile is_digit r))))
          else
            (if takeWhile is_digit s = [] then None else Some (int (digits_value (takeWhile is_digit s)))))"

definition exponent_part :: "string \<Rightarrow> int" where
  "exponent_part s =
     (case s of
        [] \<Rightarrow> 0
      | c # r \<Rightarrow>
          if c = CHR ''e'' \<or> c = CHR ''E'' then (case signed_integer r of None \<Rightarrow> 0 | Some e \<Rightarrow> e)
          else 0)"

definition unsigned_literal :: "string \<Rightarrow> number" where
  "unsigned_literal s =
     (if take 8 s = ''Infinity'' then PosInfinity
      else
        let ip = takeWhile is_digit s; r1 = dropWhile is_digit s
        in case r1 of
             [] \<Rightarrow> if ip = [] then NaN else decimal_value (digits_value ip) 0
           | c # r2 \<Rightarrow>
               if c = CHR ''.'' then
                 (let fp = takeWhile is_digit r2; r3 = dropWhile is_digit r2
                  in if ip = [] \<and> fp = [] then NaN
                     else decimal_value (digits_value (ip @ fp)) (exponent_part r3 - int (length fp)))
               else if ip = [] then NaN
               else decimal_value (digits_value ip) (exponent_part r1))"

definition parseFloat :: "string \<Rightarrow> number" where
  "parseFloat s =
     (case dropWhile is_white s of
        [] \<Rightarrow> NaN
      | c # r \<Rightarrow>
          if c = CHR ''-'' then num_neg (unsigned_literal r)
          else if c = CHR ''+'' then unsigned_literal r
          else unsigned_literal (c # r))"

text \<open>
  \<open>Number::toString\<close>. For a positive finite value \<open>a\<close> the digits are those of the
  integer \<open>s\<close> with the fewest digits \<open>k\<close> such that \<open>s \<times> 10^(n-k)\<close> rounds to \<open>a\<close>,
  the closest to \<open>a\<close> among those of that length; \<open>n\<close> places the decimal point. The
  value is printed in positional notation when \<open>-6 < n \<le> 21\<close> and in exponent notation
  otherwise. \<open>ilog10 q\<close> is the decimal exponent of a positive rational.
\<close>

definition ilog10 :: "rat \<Rightarrow> int" where
  "ilog10 q = (let (p, d) = quotient_of q;
                   k = int (length (decimal_digits (nat p))) - int (length (decimal_digits (nat d)))
               in if of_int d * (10 powi k) \<le> (of_int p :: rat) then k else k - 1)"

definition digit_candidates :: "rat \<Rightarrow> nat \<Rightarrow> (nat \<times> int) list" where
  "digit_candidates a k =
     (let n0 = ilog10 a + 1
      in concat (map (\<lambda>n.
           concat (map (\<lambda>s.
             if 10 ^ (k - 1) \<le> s \<and> s < 10 ^ k
                \<and> round_double (of_nat s * 10 powi (n - int k)) = Finite a
             then [(s, n)] else [])
             [nat \<lfloor>a / 10 powi (n - int k)\<rfloor>, nat \<lfloor>a / 10 powi (n - int k)\<rfloor> + 1]))
           [n0, n0 + 1]))"

fun closest_candidate :: "rat \<Rightarrow> nat \<Rightarrow> (nat \<times> int) list \<Rightarrow> (nat \<times> int) option" where
  "closest_candidate a k [] = None"
| "closest_candidate a k ((s, n) # cs) =
     (case closest_candidate a k cs of
        None \<Rightarrow> Some (s, n)
      | Some (s', n') \<Rightarrow>
          let e = \<bar>of_nat s * 10 powi (n - int k) - a\<bar>;
              e' = \<bar>of_nat s' * 10 powi (n' - int k) - a\<bar>
          in if e < e' \<or> (e = e' \<and> even s) then Some (s, n) else Some (s', n'))"

fun shortest_digits :: "rat \<Rightarrow> nat \<Rightarrow> nat \<Rightarrow> (nat \<times> nat \<times> int) option" where
  "shortest_digits a k 0 = None"
| "shortest_digits a k (Suc fuel) =
     (case closest_candidate a k (digit_candidates a k) of
        Some (s, n) \<Rightarrow> Some (k, s, n)
      | None \<Rightarrow> shortest_digits a (Suc k) fuel)"

definition positive_toString :: "rat \<Rightarrow> string" where
  "positive_toString a =
     (case shortest_digits a 1 17 of
        None \<Rightarrow> decimal_digits (nat \<lfloor>a\<rfloor>)
      | Some (k, s, n) \<Rightarrow>
          let ds = decimal_digits s
          in if int k \<le> n \<and> n \<le> 21 then ds @ replicate (nat (n - int k)) (CHR ''0'')
             else if 0 < n \<and> n \<le> 21 then take (nat n) ds @ ''.'' @ drop (nat n) ds
             else if - 6 < n \<and> n \<le> 0 then ''0.'' @ replicate (nat (- n)) (CHR ''0'') @ ds
             else
               (if k = 1 then ds else hd ds # ''.'' @ tl ds)
               @ ''e'' @ (if n - 1 < 0 then ''-'' else ''+'') @ decimal_digits (nat \<bar>n - 1\<bar>))"

definition Number_toString :: "number \<Rightarrow> string" where
  "Number_toString x =
     (case x of
        NaN \<Rightarrow> ''NaN''
      | PosInfinity \<Rightarrow> ''Infinity''
      | NegInfinity \<Rightarrow> ''-Infinity''
      | Finite q \<Rightarrow>
          if q = 0 then ''0''
          else if q < 0 then ''-'' @ positive_toString (- q)
          else positive_toString q)"

text \<open>
  \<open>Number.prototype.toFixed(f)\<close>: the integer \<open>n\<close> for which \<open>n / 10^f\<close> is closest to
  the exact value of the double (the larger one on a tie), printed with \<open>f\<close> fraction
  digits and a minus sign for a negative value; a value of at least \<open>10^21\<close> is printed
  as \<open>Number::toString\<close> prints it.
\<close>

definition toFixed :: "nat \<Rightarrow> number \<Rightarrow> string" where
  "toFixed f x =
     (case x of
        NaN \<Rightarrow> ''NaN''
      | PosInfinity \<Rightarrow> ''Infinity''
      | NegInfinity \<Rightarrow> ''-Infinity''
      | Finite q \<Rightarrow>
          let s = (if q < 0 then ''-'' else ''''); a = \<bar>q\<bar>
          in if 10 ^ 21 \<le> a then s @ positive_toString a
             else
               let m = decimal_digits (nat \<lfloor>a * 10 ^ f + 1 / 2\<rfloor>);
                   m' = replicate (f + 1 - length m) (CHR ''0'') @ m;
                   k = length m'
               in if f = 0 then s @ m
                  else s @ take (k - f) m' @ ''.'' @ drop (k - f) m')"

text \<open>
  \<open>String.prototype.toLowerCase\<close> on characters with codes below 256: the letters
  \<open>A\<close> to \<open>Z\<close> and the accented capitals \<open>0xC0\<close> to \<open>0xDE\<close> (but not the
  multiplication sign \<open>0xD7\<close>) move up by 32.
\<close>

definition toLowerCase :: "string \<Rightarrow> string" where
  "toLowerCase s =
     map (\<lambda>c. if (65 \<le> (of_char c :: nat) \<and> (of_char c :: nat) \<le> 90)
                  \<or> (192 \<le> (of_char c :: nat) \<and> (of_char c :: nat) \<le> 222
                      \<and> (of_char c :: nat) \<noteq> 215)
               then char_of ((of_char c :: nat) + 32) else c) s"

section \<open>Errors and big integers\<close>

datatype thrown = ErrorObj string | NonError string

text \<open>
  A thrown value is either an \<open>Error\<close> instance, given by its \<open>message\<close>, or any other
  value, given by the text \<open>String(error)\<close> yields. \<open>message_of\<close> is the expression
  \<^verbatim>\<open>error instanceof Error ? error.message : String(error)\<close> of every catch block.
\<close>

fun message_of :: "thrown \<Rightarrow> string" where
  "message_of (ErrorObj m) = m"
| "message_of (NonError s) = s"

text \<open>
  Every handler of the repository has the shape
  \<^verbatim>\<open>try { ... } catch (error) { throw new Error(`<prefix>${message}`) }\<close>.
\<close>

definition rethrow :: "string \<Rightarrow> thrown + 'a \<Rightarrow> thrown + 'a" where
  "rethrow prefix r = (case r of Inl e \<Rightarrow> Inl (ErrorObj (prefix @ message_of e)) | Inr v \<Rightarrow> Inr v)"

text \<open>
  \<open>BigInt(number)\<close> throws a \<open>RangeError\<close> that names the number when it is not an
  integer; multiplying a big integer by \<open>undefined\<close> throws a \<open>TypeError\<close>.
\<close>

definition RangeError_BigInt :: "number \<Rightarrow> thrown" where
  "RangeError_BigInt x =
     ErrorObj (''The number '' @ Number_toString x
       @ '' cannot be converted to a BigInt because it is not an integer'')"

definition TypeError_BigInt_mix :: thrown where
  "TypeError_BigInt_mix = ErrorObj ''Cannot mix BigInt and other types, use explicit conversions''"

fun BigInt :: "number \<Rightarrow> thrown + int" where
  "BigInt (Finite a) =
     (if of_int \<lfloor>a\<rfloor> = a then Inr \<lfloor>a\<rfloor> else Inl (RangeError_BigInt (Finite a)))"
| "BigInt x = Inl (RangeError_BigInt x)"

text \<open>\<open>Number(bigint)\<close> and \<open>BigInt.prototype.toString\<close>.\<close>

definition Number_of_bigint :: "int \<Rightarrow> number" where
  "Number_of_bigint n = round_double (of_int n)"

definition bigint_toString :: "int \<Rightarrow> string" where
  "bigint_toString n = (if n < 0 then ''-'' @ decimal_digits (nat (- n)) else decimal_digits (nat n))"

text \<open>BigInt division truncates toward zero.\<close>

definition bigint_div :: "int \<Rightarrow> int \<Rightarrow> int" where
  "bigint_div a b = sgn a * sgn b * (\<bar>a\<bar> div \<bar>b\<bar>)"

section \<open>JavaScript values\<close>

text \<open>
  The values a request can carry as \<open>params.arguments\<close> and in its fields: the values
  of JSON, and \<open>undefined\<close> for what is absent. An object is given by its own
  properties.
\<close>

datatype jsval =
  JUndefined | JNull | JBool bool | JNum number | JStr string
| JArr "jsval list" | JObj "(string \<times> jsval) list"

fun truthy :: "jsval \<Rightarrow> bool" where
  "truthy JUndefined = False"
| "truthy JNull = False"
| "truthy (JBool b) = b"
| "truthy (JNum x) = (x \<noteq> Finite 0 \<and> x \<noteq> NaN)"
| "truthy (JStr s) = (s \<noteq> [])"
| "truthy (JArr xs) = True"
| "truthy (JObj kvs) = True"

fun typeof :: "jsval \<Rightarrow> string" where
  "typeof JUndefined = ''undefined''"
| "typeof JNull = ''object''"
| "typeof (JBool b) = ''boolean''"
| "typeof (JNum x) = ''number''"
| "typeof (JStr s) = ''string''"
| "typeof (JArr xs) = ''object''"
| "typeof (JObj kvs) = ''object''"

text \<open>
  Property access \<open>args.key\<close> on a value that passed the guard, for the keys the
  dispatcher reads (none of them is an index, \<open>length\<close> or a property of a prototype):
  the own property of an object, \<open>undefined\<close> otherwise.
\<close>

fun get_prop :: "jsval \<Rightarrow> string \<Rightarrow> jsval" where
  "get_prop (JObj kvs) key = (case map_of kvs key of Some v \<Rightarrow> v | None \<Rightarrow> JUndefined)"
| "get_prop v key = JUndefined"

text \<open>
  The conversion of a value to a string, which \<open>parseFloat\<close> applies to its argument.
  An array is the join of its elements with commas, \<open>null\<close> and \<open>undefined\<close> elements
  giving the empty string. An object is converted by its \<open>toString\<close> method: the
  inherited one yields \<open>[object Object]\<close>; an own property \<open>toString\<close> hides it and,
  being a value of JSON, cannot be called, and then \<open>valueOf\<close> yields no primitive
  either, so the conversion throws a \<open>TypeError\<close>.
\<close>

definition TypeError_primitive :: thrown where
  "TypeError_primitive = ErrorObj ''Cannot convert object to primitive value''"

fun join_strings :: "(thrown + string) list \<Rightarrow> thrown + string" where
  "join_strings [] = Inr []"
| "join_strings [r] = r"
| "join_strings (r # rs) =
     (case r of
        Inl e \<Rightarrow> Inl e
      | Inr s \<Rightarrow> (case join_strings rs of Inl e \<Rightarrow> Inl e | Inr t \<Rightarrow> Inr (s @ '','' @ t)))"

fun ToString :: "jsval \<Rightarrow> thrown + string" where
  "ToString JUndefined = Inr ''undefined''"
| "ToString JNull = Inr ''null''"
| "ToString (JBool b) = Inr (if b then ''true'' else ''false'')"
| "ToString (JNum x) = Inr (Number_toString x)"
| "ToString (JStr s) = Inr s"
| "ToString (JArr xs) =
     join_strings (map (\<lambda>x. if x = JUndefined \<or> x = JNull then Inr [] else ToString x) xs)"
| "ToString (JObj kvs) =
     (if map_of kvs ''toString'' = None then Inr ''[object Object]'' else Inl TypeError_primitive)"

section \<open>Arrays and promises\<close>

text \<open>
  \<open>Array.prototype.sort\<close> with a comparator is a stable sort; \<open>lt a b\<close> says that the
  comparator returned a negative number for \<open>(a, b)\<close> (a \<open>NaN\<close> result counts as zero).
  The model is the stable insertion sort. When the comparator is not a consistent order
  the standard leaves the resulting order to the implementation.
\<close>

fun insert_by :: "('a \<Rightarrow> 'a \<Rightarrow> bool) \<Rightarrow> 'a \<Rightarrow> 'a list \<Rightarrow> 'a list" where
  "insert_by lt x [] = [x]"
| "insert_by lt x (y # ys) = (if lt x y then x # y # ys else y # insert_by lt x ys)"

definition Array_sort :: "('a \<Rightarrow> 'a \<Rightarrow> bool) \<Rightarrow> 'a list \<Rightarrow> 'a list" where
  "Array_sort lt xs = foldl (\<lambda>acc x. insert_by lt x acc) [] xs"

text \<open>The outcome of one promise under \<open>Promise.allSettled\<close>.\<close>

datatype 'a settled = Fulfilled 'a | Rejected thrown

section \<open>SaucerSwap quotes (\<open>SaucerSwapTools\<close>)\<close>

record token_in =
  address :: jsval
  symbol :: "string option"
  amount :: jsval
  amountWei :: "string option"

record token_out =
  out_address :: jsval
  out_symbol :: "string option"
  expectedAmount :: string
  out_amountWei :: "string option"
  minimumAmount :: "string option"

text \<open>
  A quote object. The fields that are left out or \<open>undefined\<close> are \<open>None\<close>; the
  fields \<open>address\<close>, \<open>symbol\<close> and \<open>amountWei\<close> of \<open>tokenOut\<close> carry the prefix
  \<open>out_\<close>. The \<open>address\<close> and \<open>amount\<close> fields hold the argument values as they
  were passed.
\<close>

record quote =
  dex :: "string option"
  tokenIn :: token_in
  tokenOut :: token_out
  priceImpact :: string
  slippageTolerance :: "number option"
  timestamp :: "string option"

text \<open>
  What \<open>getTokenInfo\<close> returns; a property the returned object does not have is
  \<open>None\<close>.
\<close>

record token_info =
  info_symbol :: "string option"
  info_name :: "string option"
  info_decimals :: "nat option"

text \<open>
  \<open>getTokenInfo\<close> calls \<open>toLowerCase\<close> on its argument, which throws a \<open>TypeError\<close>
  unless the argument is a string, and looks the result up in an object literal. The
  lookup also finds what the literal inherits under a lower-case name: \<open>constructor\<close>
  (the function \<open>Object\<close>, whose \<open>name\<close> is \<open>Object\<close>) and \<open>__proto__\<close>
  (\<open>Object.prototype\<close>); neither has a \<open>symbol\<close> or \<open>decimals\<close>.
\<close>

definition getTokenInfo :: "jsval \<Rightarrow> thrown + token_info" where
  "getTokenInfo tokenAddress =
     (case tokenAddress of
        JStr s \<Rightarrow>
          (case map_of
             [(''0x0000000000000000000000000000000000000000'',
                 \<lparr>info_symbol = Some ''HBAR'', info_name = Some ''Hedera'', info_decimals = Some 8\<rparr>),
              (''0x0000000000000000000000000000000000000001'',
                 \<lparr>info_symbol = Some ''USDC'', info_name = Some ''USD Coin'', info_decimals = Some 6\<rparr>),
              (''0x0000000000000000000000000000000000000002'',
                 \<lparr>info_symbol = Some ''USDT'', info_name = Some ''Tether USD'', info_decimals = Some 6\<rparr>),
              (''constructor'',
                 \<lparr>info_symbol = None, info_name = Some ''Object'', info_decimals = None\<rparr>),
              (''__proto__'',
                 \<lparr>info_symbol = None, info_name = None, info_decimals = None\<rparr>)]
             (toLowerCase s) of
             Some info \<Rightarrow> Inr info
           | None \<Rightarrow> Inr \<lparr>info_symbol = Some ''UNKNOWN'', info_name = Some ''Unknown Token'',
                            info_decimals = Some 18\<rparr>)
      | JUndefined \<Rightarrow>
          Inl (ErrorObj (''Cannot read properties of undefined (reading '' @ [CHR 0x27]
            @ ''toLowerCase'' @ [CHR 0x27] @ '')''))
      | JNull \<Rightarrow>
          Inl (ErrorObj (''Cannot read properties of null (reading '' @ [CHR 0x27]
            @ ''toLowerCase'' @ [CHR 0x27] @ '')''))
      | _ \<Rightarrow> Inl (ErrorObj ''tokenAddress.toLowerCase is not a function''))"

definition calculatePriceImpact :: "int \<Rightarrow> nat \<Rightarrow> token_info \<Rightarrow> token_info \<Rightarrow> string" where
  "calculatePriceImpact amountIn amountOut tokenInInfo tokenOutInfo =
     (let impact = num_mul (num_div (Number_of_bigint amountIn) (decimal_value 1 18))
                           (decimal_value 1 (- 3))
      in toFixed 2 (num_mul impact (Finite 100)) @ ''%'')"

text \<open>
  The collaborators of \<open>getQuote\<close> outside the repository: \<open>ethers.parseUnits\<close> and
  \<open>ethers.formatUnits\<close> (given the \<open>decimals\<close> of the token information, which may be
  \<open>undefined\<close>), the router contract's \<open>getAmountsOut\<close> (its ABI returns \<open>uint[]\<close>,
  so the amounts are natural numbers) and the clock.
\<close>

record chain =
  parseUnits :: "jsval \<Rightarrow> nat option \<Rightarrow> thrown + int"
  formatUnits :: "int \<Rightarrow> nat option \<Rightarrow> string"
  getAmountsOut :: "int \<Rightarrow> jsval list \<Rightarrow> thrown + nat list"
  now :: string

text \<open>
  \<open>slippage_factor s\<close> is \<^verbatim>\<open>BigInt(Math.floor((100 - slippageTolerance) * 100))\<close>, the
  subtraction and the product in double arithmetic.
\<close>

definition slippage_factor :: "number \<Rightarrow> thrown + int" where
  "slippage_factor s = BigInt (Math_floor (num_mul (num_sub (Finite 100) s) (Finite 100)))"

text \<open>
  \<open>getQuote\<close>. The slippage tolerance is a number, or absent and then \<open>0.5\<close>, as the
  signature of the method and the schema of the tool declare it.
\<close>

definition SaucerSwapTools_getQuote ::
    "chain \<Rightarrow> jsval \<Rightarrow> jsval \<Rightarrow> jsval \<Rightarrow> number option \<Rightarrow> thrown + quote" where
  "SaucerSwapTools_getQuote env tokenIn' tokenOut' amount' slippage =
     rethrow ''Failed to get quote: ''
       (let slippageTolerance' = (case slippage of None \<Rightarrow> Finite (1 / 2) | Some s \<Rightarrow> s)
        in case getTokenInfo tokenIn' of
             Inl e \<Rightarrow> Inl e
           | Inr tokenInInfo \<Rightarrow>
        (case getTokenInfo tokenOut' of
             Inl e \<Rightarrow> Inl e
           | Inr tokenOutInfo \<Rightarrow>
        (case parseUnits env amount' (info_decimals tokenInInfo) of
             Inl e \<Rightarrow> Inl e
           | Inr amountIn \<Rightarrow>
        (case getAmountsOut env amountIn [tokenIn', tokenOut'] of
             Inl e \<Rightarrow> Inl e
           | Inr amounts \<Rightarrow>
        (case slippage_factor slippageTolerance' of
             Inl e \<Rightarrow> Inl e
           | Inr factor \<Rightarrow>
               if length amounts < 2 then Inl TypeError_BigInt_mix
               else
                 let amountOut = amounts ! 1;
                     amountOutMin = bigint_div (int amountOut * factor) 10000
                 in Inr \<lparr>dex = None,
                         tokenIn = \<lparr>address = tokenIn',
                                    symbol = info_symbol tokenInInfo,
                                    amount = amount',
                                    amountWei = Some (bigint_toString amountIn)\<rparr>,
                         tokenOut = \<lparr>out_address = tokenOut',
                                     out_symbol = info_symbol tokenOutInfo,
                                     expectedAmount =
                                       formatUnits env (int amountOut) (info_decimals tokenOutInfo),
                                     out_amountWei = Some (decimal_digits amountOut),
                                     minimumAmount =
                                       Some (formatUnits env amountOutMin (info_decimals tokenOutInfo))\<rparr>,
                         priceImpact =
                           calculatePriceImpact amountIn amountOut tokenInInfo tokenOutInfo,
                         slippageTolerance = Some slippageTolerance',
                         timestamp = Some (now env)\<rparr>)))))"

section \<open>The rate aggregator (\<open>DeFiAggregator\<close>)\<close>

text \<open>
  \<open>findBestRate\<close> asks three quote methods of its own object. They are the fields of
  \<open>quote_sources\<close>; \<open>DeFiAggregator_sources\<close> below holds the three methods the class
  defines. A quote method is asynchronous: it settles with a quote or \<open>null\<close>, or
  rejects. The arguments are the values the dispatcher read from the request.
\<close>

type_synonym quote_source = "jsval \<Rightarrow> jsval \<Rightarrow> jsval \<Rightarrow> quote option settled"

record quote_sources =
  getSaucerSwapQuote :: quote_source
  getHeliSwapQuote :: quote_source
  getPangolinQuote :: quote_source

record best_rate =
  bestQuote :: quote
  allQuotes :: "quote list"
  averageRate :: string
  savings :: string
  dexCount :: nat
  rate_timestamp :: string

text \<open>
  The filter \<^verbatim>\<open>result.status === "fulfilled" && result.value\<close> followed by the map to
  \<^verbatim>\<open>result.value\<close> keeps the values of the fulfilled requests that are not \<open>null\<close>.
\<close>

definition fulfilled_value :: "'a option settled \<Rightarrow> 'a option" where
  "fulfilled_value result = (case result of Fulfilled v \<Rightarrow> v | Rejected e \<Rightarrow> None)"

text \<open>A settled quote request that survives the filter: fulfilled, with a quote object.\<close>

fun has_quote :: "quote option settled \<Rightarrow> bool" where
  "has_quote (Fulfilled (Some q)) = True"
| "has_quote s = False"

definition outputAmount :: "quote \<Rightarrow> number" where
  "outputAmount q = parseFloat (expectedAmount (tokenOut q))"

text \<open>The comparator \<^verbatim>\<open>(a, b) => bAmount - aAmount\<close> returned a negative number.\<close>

definition higher_output :: "quote \<Rightarrow> quote \<Rightarrow> bool" where
  "higher_output a b = is_negative (num_sub (outputAmount b) (outputAmount a))"

text \<open>The mean the aggregator reports: the outputs summed from \<open>0\<close> in list order, over the count.\<close>

definition mean_output :: "quote list \<Rightarrow> number" where
  "mean_output qs =
     num_div (foldl (\<lambda>sum q. num_add sum (outputAmount q)) (Finite 0) qs)
             (Finite (of_nat (length qs)))"

definition DeFiAggregator_findBestRate ::
    "quote_sources \<Rightarrow> string \<Rightarrow> jsval \<Rightarrow> jsval \<Rightarrow> jsval \<Rightarrow> thrown + best_rate" where
  "DeFiAggregator_findBestRate this clock tokenIn' tokenOut' amount' =
     rethrow ''Failed to find best rate: ''
       (let quotes = [getSaucerSwapQuote this tokenIn' tokenOut' amount',
                      getHeliSwapQuote this tokenIn' tokenOut' amount',
                      getPangolinQuote this tokenIn' tokenOut' amount'];
            validQuotes = List.map_filter fulfilled_value quotes
        in if length validQuotes = 0 then Inl (ErrorObj ''No valid quotes found from any DEX'')
           else
             let sorted = Array_sort higher_output validQuotes;
                 bestQuote' = sorted ! 0;
                 averageRate' =
                   num_div (foldl (\<lambda>sum q. num_add sum (outputAmount q)) (Finite 0) sorted)
                           (Finite (of_nat (length sorted)))
             in Inr \<lparr>bestQuote = bestQuote',
                     allQuotes = sorted,
                     averageRate = toFixed 6 averageRate',
                     savings = toFixed 6 (num_sub (outputAmount bestQuote') averageRate'),
                     dexCount = length sorted,
                     rate_timestamp = clock\<rparr>)"

text \<open>
  The object literal the two hard-coded quote methods return, at the rate \<open>0.98\<close> or
  \<open>0.97\<close> of the amount (the literals are the doubles nearest to \<open>98 \<times> 10^-2\<close> and
  \<open>97 \<times> 10^-2\<close>). \<open>parseFloat(amount)\<close> first converts the amount to a string;
  when that conversion throws, so does the method.
\<close>

definition mock_quote :: "string \<Rightarrow> number \<Rightarrow> string \<Rightarrow> jsval \<Rightarrow> jsval \<Rightarrow> jsval \<Rightarrow> thrown + quote" where
  "mock_quote dexName rate impact tokenIn' tokenOut' amount' =
     (case ToString amount' of
        Inl e \<Rightarrow> Inl e
      | Inr s \<Rightarrow>
          Inr \<lparr>dex = Some dexName,
               tokenIn = \<lparr>address = tokenIn', symbol = None, amount = amount', amountWei = None\<rparr>,
               tokenOut = \<lparr>out_address = tokenOut', out_symbol = None,
                           expectedAmount = toFixed 6 (num_mul (parseFloat s) rate),
                           out_amountWei = None, minimumAmount = None\<rparr>,
               priceImpact = impact,
               slippageTolerance = None,
               timestamp = None\<rparr>)"

text \<open>
  The three quote methods of the class. The SaucerSwap method catches the failure of
  \<open>getQuote\<close> and returns \<open>null\<close>; the promise of an asynchronous method that throws
  is rejected.
\<close>

definition settle :: "thrown + quote \<Rightarrow> quote option settled" where
  "settle r = (case r of Inl e \<Rightarrow> Rejected e | Inr q \<Rightarrow> Fulfilled (Some q))"

definition DeFiAggregator_sources :: "chain \<Rightarrow> quote_sources" where
  "DeFiAggregator_sources env =
     \<lparr>getSaucerSwapQuote = (\<lambda>tokenIn' tokenOut' amount'.
        case SaucerSwapTools_getQuote env tokenIn' tokenOut' amount' None of
          Inl e \<Rightarrow> Fulfilled None
        | Inr q \<Rightarrow> Fulfilled (Some q)),
      getHeliSwapQuote = (\<lambda>tokenIn' tokenOut' amount'.
        settle (mock_quote ''HeliSwap'' (decimal_value 98 (- 2)) ''0.1%'' tokenIn' tokenOut' amount')),
      getPangolinQuote = (\<lambda>tokenIn' tokenOut' amount'.
        settle (mock_quote ''Pangolin'' (decimal_value 97 (- 2)) ''0.2%'' tokenIn' tokenOut' amount'))\<rparr>"

section \<open>The tool dispatcher (\<open>AyaWalletMCPServer\<close>)\<close>

datatype property = Property string "string option" "number option" "string list option"

datatype schema = Schema string "(string \<times> property) list" "string list"

record tool =
  name :: string
  description :: string
  inputSchema :: schema

definition string_prop :: property where
  "string_prop = Property ''string'' None None None"

definition ListTools :: "tool list" where
  "ListTools =
    [\<lparr>name = ''hedera_get_balance'',
      description = ''Get HBAR balance for a Hedera account'',
      inputSchema = Schema ''object''
        [(''accountId'', Property ''string'' (Some ''Hedera account ID'') None None)]
        [''accountId'']\<rparr>,
     \<lparr>name = ''hedera_transfer_hbar'',
      description = ''Transfer HBAR between Hedera accounts'',
      inputSchema = Schema ''object''
        [(''fromAccountId'', string_prop), (''toAccountId'', string_prop),
         (''amount'', string_prop), (''memo'', string_prop)]
        [''fromAccountId'', ''toAccountId'', ''amount'']\<rparr>,
     \<lparr>name = ''saucerswap_get_quote'',
      description = ''Get swap quote from SaucerSwap'',
      inputSchema = Schema ''object''
        [(''tokenIn'', string_prop), (''tokenOut'', string_prop), (''amount'', string_prop),
         (''slippageTolerance'', Property ''number'' None (Some (decimal_value 5 (- 1))) None)]
        [''tokenIn'', ''tokenOut'', ''amount'']\<rparr>,
     \<lparr>name = ''saucerswap_execute_swap'',
      description = ''Execute token swap on SaucerSwap'',
      inputSchema = Schema ''object''
        [(''tokenIn'', string_prop), (''tokenOut'', string_prop), (''amount'', string_prop),
         (''slippageTolerance'', Property ''number'' None (Some (decimal_value 5 (- 1))) None),
         (''recipient'', string_prop)]
        [''tokenIn'', ''tokenOut'', ''amount'', ''recipient'']\<rparr>,
     \<lparr>name = ''saucerswap_add_liquidity'',
      description = ''Add liquidity to SaucerSwap pool'',
      inputSchema = Schema ''object''
        [(''tokenA'', string_prop), (''tokenB'', string_prop),
         (''amountA'', string_prop), (''amountB'', string_prop),
         (''slippageTolerance'', Property ''number'' None (Some (decimal_value 5 (- 1))) None)]
        [''tokenA'', ''tokenB'', ''amountA'', ''amountB'']\<rparr>,
     \<lparr>name = ''hts_create_token'',
      description = ''Create new HTS token'',
      inputSchema = Schema ''object''
        [(''name'', string_prop), (''symbol'', string_prop),
         (''decimals'', Property ''number'' None None None),
         (''initialSupply'', string_prop), (''treasury'', string_prop)]
        [''name'', ''symbol'', ''decimals'', ''initialSupply'', ''treasury'']\<rparr>,
     \<lparr>name = ''hts_mint_token'',
      description = ''Mint HTS tokens'',
      inputSchema = Schema ''object''
        [(''tokenId'', string_prop), (''amount'', string_prop), (''recipient'', string_prop)]
        [''tokenId'', ''amount'', ''recipient'']\<rparr>,
     \<lparr>name = ''defi_find_best_rate'',
      description = ''Find best swap rate across multiple DEXs'',
      inputSchema = Schema ''object''
        [(''tokenIn'', string_prop), (''tokenOut'', string_prop), (''amount'', string_prop)]
        [''tokenIn'', ''tokenOut'', ''amount'']\<rparr>,
     \<lparr>name = ''defi_optimize_portfolio'',
      description = ''Optimize DeFi portfolio for maximum yield'',
      inputSchema = Schema ''object''
        [(''walletAddress'', string_prop),
         (''riskTolerance'', Property ''string'' None None (Some [''low'', ''medium'', ''high'']))]
        [''walletAddress'']\<rparr>]"

text \<open>
  The four tool objects of the server. Each method receives the argument values the
  dispatcher reads from \<open>args\<close> and either returns a result or throws.
\<close>

record 'r tools =
  getBalance :: "jsval \<Rightarrow> thrown + 'r"
  transferHBAR :: "jsval \<Rightarrow> jsval \<Rightarrow> jsval \<Rightarrow> jsval \<Rightarrow> thrown + 'r"
  getQuote :: "jsval \<Rightarrow> jsval \<Rightarrow> jsval \<Rightarrow> jsval \<Rightarrow> thrown + 'r"
  executeSwap :: "jsval \<Rightarrow> jsval \<Rightarrow> jsval \<Rightarrow> jsval \<Rightarrow> jsval \<Rightarrow> thrown + 'r"
  addLiquidity :: "jsval \<Rightarrow> jsval \<Rightarrow> jsval \<Rightarrow> jsval \<Rightarrow> jsval \<Rightarrow> thrown + 'r"
  createToken :: "jsval \<Rightarrow> jsval \<Rightarrow> jsval \<Rightarrow> jsval \<Rightarrow> jsval \<Rightarrow> thrown + 'r"
  mintToken :: "jsval \<Rightarrow> jsval \<Rightarrow> jsval \<Rightarrow> thrown + 'r"
  findBestRate :: "jsval \<Rightarrow> jsval \<Rightarrow> jsval \<Rightarrow> thrown + 'r"
  optimizePortfolio :: "jsval \<Rightarrow> jsval \<Rightarrow> thrown + 'r"

record content_item =
  type :: string
  text' :: string

record response =
  content :: "content_item list"

text \<open>The \<open>switch (name)\<close> of the \<open>tools/call\<close> handler.\<close>

definition call_handler :: "'r tools \<Rightarrow> string \<Rightarrow> jsval \<Rightarrow> thrown + 'r" where
  "call_handler this name' args =
     (if name' = ''hedera_get_balance'' then
        getBalance this (get_prop args ''accountId'')
      else if name' = ''hedera_transfer_hbar'' then
        transferHBAR this (get_prop args ''fromAccountId'') (get_prop args ''toAccountId'')
          (get_prop args ''amount'') (get_prop args ''memo'')
      else if name' = ''saucerswap_get_quote'' then
        getQuote this (get_prop args ''tokenIn'') (get_prop args ''tokenOut'')
          (get_prop args ''amount'') (get_prop args ''slippageTolerance'')
      else if name' = ''saucerswap_execute_swap'' then
        executeSwap this (get_prop args ''tokenIn'') (get_prop args ''tokenOut'')
          (get_prop args ''amount'') (get_prop args ''slippageTolerance'')
          (get_prop args ''recipient'')
      else if name' = ''saucerswap_add_liquidity'' then
        addLiquidity this (get_prop args ''tokenA'') (get_prop args ''tokenB'')
          (get_prop args ''amountA'') (get_prop args ''amountB'')
          (get_prop args ''slippageTolerance'')
      else if name' = ''hts_create_token'' then
        createToken this (get_prop args ''name'') (get_prop args ''symbol'')
          (get_prop args ''decimals'') (get_prop args ''initialSupply'')
          (get_prop args ''treasury'')
      else if name' = ''hts_mint_token'' then
        mintToken this (get_prop args ''tokenId'') (get_prop args ''amount'')
          (get_prop args ''recipient'')
      else if name' = ''defi_find_best_rate'' then
        findBestRate this (get_prop args ''tokenIn'') (get_prop args ''tokenOut'')
          (get_prop args ''amount'')
      else if name' = ''defi_optimize_portfolio'' then
        optimizePortfolio this (get_prop args ''walletAddress'') (get_prop args ''riskTolerance'')
      else Inl (ErrorObj (''Unknown tool: '' @ name')))"

text \<open>
  The body of the \<open>try\<close> block: the argument guard, the switch, and
  \<open>JSON.stringify\<close> of the result (\<open>stringify\<close>, which throws on a value it cannot
  serialise).
\<close>

definition try_call :: "'r tools \<Rightarrow> ('r \<Rightarrow> thrown + string) \<Rightarrow> string \<Rightarrow> jsval \<Rightarrow> thrown + response" where
  "try_call this stringify name' args =
     (if \<not> truthy args \<or> typeof args \<noteq> ''object'' then
        Inl (ErrorObj ''Invalid arguments provided'')
      else case call_handler this name' args of
             Inl e \<Rightarrow> Inl e
           | Inr result \<Rightarrow>
               (case stringify result of
                  Inl e \<Rightarrow> Inl e
                | Inr json \<Rightarrow> Inr \<lparr>content = [\<lparr>type = ''text'', text' = json\<rparr>]\<rparr>))"

text \<open>
  The function registered as the \<open>tools/call\<close> request handler: \<open>Inr\<close> is the
  response it returns, \<open>Inl\<close> an exception leaving it.
\<close>

definition CallTool :: "'r tools \<Rightarrow> ('r \<Rightarrow> thrown + string) \<Rightarrow> string \<Rightarrow> jsval \<Rightarrow> thrown + response" where
  "CallTool this stringify name' args =
     (case try_call this stringify name' args of
        Inr r \<Rightarrow> Inr r
      | Inl error \<Rightarrow> Inr \<lparr>content = [\<lparr>type = ''text'', text' = ''Error: '' @ message_of error\<rparr>]\<rparr>)"




section \<open>Sample collaborators\<close>

text \<open>
  Concrete quote sources and chains on which the theorems below are instantiated:
  a quote with a given exchange name and output amount, and sources that answer with
  fixed quotes or fail.
\<close>

definition plain_quote :: "string \<Rightarrow> string \<Rightarrow> quote" where
  "plain_quote dexName output =
     \<lparr>dex = Some dexName,
      tokenIn = \<lparr>address = JStr ''HBAR'', symbol = None, amount = JStr ''25'', amountWei = None\<rparr>,
      tokenOut = \<lparr>out_address = JStr ''USDC'', out_symbol = None, expectedAmount = output,
                  out_amountWei = None, minimumAmount = None\<rparr>,
      priceImpact = ''0.1%'',
      slippageTolerance = None,
      timestamp = None\<rparr>"

definition fixed_sources :: "quote option settled \<Rightarrow> quote option settled \<Rightarrow> quote option settled \<Rightarrow> quote_sources" where
  "fixed_sources s h p =
     \<lparr>getSaucerSwapQuote = (\<lambda>tokenIn' tokenOut' amount'. s),
      getHeliSwapQuote = (\<lambda>tokenIn' tokenOut' amount'. h),
      getPangolinQuote = (\<lambda>tokenIn' tokenOut' amount'. p)\<rparr>"

definition failing_sources :: quote_sources where
  "failing_sources =
     fixed_sources (Fulfilled None) (Rejected (ErrorObj ''HeliSwap unavailable''))
       (Rejected (ErrorObj ''Pangolin unavailable''))"

text \<open>
  The two unit conversions as the ethers library (version 6) computes them, with its
  error messages shortened. \<open>parseUnits\<close> accepts a string of digits with an optional
  sign and fraction, of no more fraction digits than the decimals (18 when
  \<open>undefined\<close>), and yields the amount in the smallest unit. \<open>formatUnits\<close> prints
  such an amount with a decimal point and at least one fraction digit, without trailing
  zeros.
\<close>

definition ethers_parseUnits :: "jsval \<Rightarrow> nat option \<Rightarrow> thrown + int" where
  "ethers_parseUnits value' unit =
     (case value' of
        JStr s \<Rightarrow>
          let decimals = (case unit of None \<Rightarrow> 18 | Some d \<Rightarrow> d);
              negative = (take 1 s = ''-'');
              r = (if negative then drop 1 s else s);
              whole = takeWhile is_digit r;
              r1 = dropWhile is_digit r;
              r2 = (if take 1 r1 = ''.'' then drop 1 r1 else r1);
              frac = takeWhile is_digit r2
          in if dropWhile is_digit r2 \<noteq> [] \<or> (whole = [] \<and> frac = []) then
               Inl (ErrorObj ''invalid FixedNumber string value'')
             else if decimals < length frac then
               Inl (ErrorObj ''too many decimals for format'')
             else
               Inr ((if negative then - 1 else 1)
                 * int (digits_value (whole @ frac @ replicate (decimals - length frac) (CHR ''0''))))
      | _ \<Rightarrow> Inl (ErrorObj ''value must be a string''))"

definition ethers_formatUnits :: "int \<Rightarrow> nat option \<Rightarrow> string" where
  "ethers_formatUnits value' unit =
     (let decimals = (case unit of None \<Rightarrow> 18 | Some d \<Rightarrow> d);
          negative = (if value' < 0 then ''-'' else '''');
          str = decimal_digits (nat \<bar>value'\<bar>)
      in if decimals = 0 then negative @ str
         else
           let padded = replicate (decimals + 1 - length str) (CHR ''0'') @ str;
               index = length padded - decimals;
               frac = rev (dropWhile (\<lambda>c. c = CHR ''0'') (rev (drop index padded)))
           in negative @ take index padded @ ''.'' @ (if frac = [] then ''0'' else frac))"

text \<open>
  A chain whose router cannot be reached, and a chain whose router answers every quote
  request with the amounts \<open>[1000000000, 2450000]\<close> (ten HBAR for 2.45 USDC).
\<close>

definition offline_chain :: chain where
  "offline_chain =
     \<lparr>parseUnits = ethers_parseUnits,
      formatUnits = ethers_formatUnits,
      getAmountsOut = (\<lambda>amountIn path. Inl (ErrorObj ''could not detect network'')),
      now = ''2024-01-15T10:30:00.000Z''\<rparr>"

definition demo_chain :: chain where
  "demo_chain =
     \<lparr>parseUnits = ethers_parseUnits,
      formatUnits = ethers_formatUnits,
      getAmountsOut = (\<lambda>amountIn path. Inr [1000000000, 2450000]),
      now = ''2024-01-15T10:30:00.000Z''\<rparr>"

text \<open>
  Tool objects for tracing the dispatcher: \<open>constant_tools v\<close> answers every call with
  \<open>v\<close>, and \<open>recording_tools\<close> returns the name of the method that was called together
  with the argument values it received.
\<close>

definition constant_tools :: "(thrown + 'r) \<Rightarrow> 'r tools" where
  "constant_tools v =
     \<lparr>getBalance = (\<lambda>a. v),
      transferHBAR = (\<lambda>a b c d. v),
      getQuote = (\<lambda>a b c d. v),
      executeSwap = (\<lambda>a b c d e. v),
      addLiquidity = (\<lambda>a b c d e. v),
      createToken = (\<lambda>a b c d e. v),
      mintToken = (\<lambda>a b c. v),
      findBestRate = (\<lambda>a b c. v),
      optimizePortfolio = (\<lambda>a b. v)\<rparr>"

definition recording_tools :: "(string \<times> jsval list) tools" where
  "recording_tools =
     \<lparr>getBalance = (\<lambda>a. Inr (''getBalance'', [a])),
      transferHBAR = (\<lambda>a b c d. Inr (''transferHBAR'', [a, b, c, d])),
      getQuote = (\<lambda>a b c d. Inr (''getQuote'', [a, b, c, d])),
      executeSwap = (\<lambda>a b c d e. Inr (''executeSwap'', [a, b, c, d, e])),
      addLiquidity = (\<lambda>a b c d e. Inr (''addLiquidity'', [a, b, c, d, e])),
      createToken = (\<lambda>a b c d e. Inr (''createToken'', [a, b, c, d, e])),
      mintToken = (\<lambda>a b c. Inr (''mintToken'', [a, b, c])),
      findBestRate = (\<lambda>a b c. Inr (''findBestRate'', [a, b, c])),
      optimizePortfolio = (\<lambda>a b. Inr (''optimizePortfolio'', [a, b]))\<rparr>"

definition method_name :: "string \<times> jsval list \<Rightarrow> thrown + string" where
  "method_name call = Inr (fst call)"

text \<open>
  A server whose \<open>defi_find_best_rate\<close> handler is the aggregator over the quote
  methods of the class; the other handlers are not exercised and fail.
\<close>

definition aggregator_tools :: "chain \<Rightarrow> best_rate tools" where
  "aggregator_tools env =
     (constant_tools (Inl (ErrorObj ''not exercised'')))
       \<lparr>findBestRate := DeFiAggregator_findBestRate (DeFiAggregator_sources env) (now env)\<rparr>"

definition failure :: "string \<Rightarrow> response" where
  "failure message = \<lparr>content = [\<lparr>type = ''text'', text' = ''Error: '' @ message\<rparr>]\<rparr>"

definition tool_names :: "string list" where
  "tool_names =
     [''hedera_get_balance'', ''hedera_transfer_hbar'', ''saucerswap_get_quote'',
      ''saucerswap_execute_swap'', ''saucerswap_add_liquidity'', ''hts_create_token'',
      ''hts_mint_token'', ''defi_find_best_rate'', ''defi_optimize_portfolio'']"

section \<open>Facts about rounding to a double\<close>


lemma powi2_less_iff: "(2::rat) powi a < 2 powi b \<longleftrightarrow> a < b"
proof
  assume l: "(2::rat) powi a < 2 powi b"
  show "a < b"
  proof (rule ccontr)
    assume "\<not> a < b"
    then have "b \<le> a" by simp
    then have "(2::rat) powi b \<le> 2 powi a" by (intro power_int_increasing) auto
    with l show False by simp
  qed
next
  assume "a < b"
  then show "(2::rat) powi a < 2 powi b" by (intro power_int_strict_increasing) auto
qed

lemma powi2_le_iff: "(2::rat) powi a \<le> 2 powi b \<longleftrightarrow> a \<le> b"
  using powi2_less_iff [of b a] by (auto simp: not_less [symmetric])

lemma powi2_pos: "0 < (2::rat) powi a"
  by simp

lemma powi2_split: "a \<le> b \<Longrightarrow> (2::rat) powi b = 2 ^ nat (b - a) * 2 powi a"
proof -
  assume ab: "a \<le> b"
  have "(2::rat) powi b = 2 powi ((b - a) + a)" by simp
  also have "\<dots> = 2 powi (b - a) * 2 powi a"
    by (rule power_int_add) simp
  also have "(2::rat) powi (b - a) = 2 ^ nat (b - a)"
    using ab by (simp add: power_int_def)
  finally show ?thesis .
qed

lemma bitlen_powi_bounds:
  assumes "0 < x"
  shows "2 powi (bitlen x - 1) \<le> (of_int x :: rat)" "(of_int x :: rat) < 2 powi (bitlen x)"
proof -
  from assms have b1: "1 \<le> bitlen x"
    using bitlen_eq_zero_iff [of x] bitlen_nonneg [of x] by linarith
  from bitlen_bounds [OF assms]
  have lo: "2 ^ nat (bitlen x - 1) \<le> x" and hi: "x < 2 ^ nat (bitlen x)" by simp_all
  have "(of_int (2 ^ nat (bitlen x - 1)) :: rat) \<le> of_int x"
    using lo by (simp only: of_int_le_iff)
  then show "2 powi (bitlen x - 1) \<le> (of_int x :: rat)"
    using b1 by (simp add: power_int_def)
  have "(of_int x :: rat) < of_int (2 ^ nat (bitlen x))"
    using hi by (simp only: of_int_less_iff)
  then show "(of_int x :: rat) < 2 powi (bitlen x)"
    using b1 by (simp add: power_int_def)
qed

lemma ilog2_bounds:
  assumes "0 < q"
  shows "2 powi (ilog2 q) \<le> q" "q < 2 powi (ilog2 q + 1)"
proof -
  obtain p d where pd: "quotient_of q = (p, d)" by (cases "quotient_of q")
  then have d: "0 < d" and q: "q = of_int p / of_int d"
    using quotient_of_denom_pos quotient_of_div by auto
  from assms q d have p: "0 < p" by (simp add: zero_less_divide_iff)
  define k where "k = bitlen p - bitlen d"
  have dq: "(of_int d :: rat) > 0" using d by simp
  have pl: "2 powi (bitlen p - 1) \<le> (of_int p :: rat)" and ph: "(of_int p :: rat) < 2 powi (bitlen p)"
    using bitlen_powi_bounds [OF p] by auto
  have dl: "2 powi (bitlen d - 1) \<le> (of_int d :: rat)" and dh: "(of_int d :: rat) < 2 powi (bitlen d)"
    using bitlen_powi_bounds [OF d] by auto
  have up: "of_int p < of_int d * (2 powi (k + 1) :: rat)"
  proof -
    have "2 powi (bitlen p) = (2 powi (bitlen d - 1) :: rat) * 2 powi (k + 1)"
      unfolding k_def by (simp flip: power_int_add)
    also have "\<dots> \<le> of_int d * 2 powi (k + 1)"
      using dl by (intro mult_right_mono) auto
    finally show ?thesis using ph by linarith
  qed
  have low: "of_int d * (2 powi (k - 1) :: rat) \<le> of_int p"
  proof -
    have "of_int d * (2 powi (k - 1) :: rat) \<le> 2 powi (bitlen d) * 2 powi (k - 1)"
      using dh by (intro mult_right_mono) auto
    also have "\<dots> = 2 powi (bitlen p - 1)"
      unfolding k_def by (simp flip: power_int_add)
    finally show ?thesis using pl by linarith
  qed
  have il: "ilog2 q = (if of_int d * (2 powi k) \<le> (of_int p :: rat) then k else k - 1)"
    by (simp add: ilog2_def pd k_def Let_def)
  show "2 powi (ilog2 q) \<le> q"
  proof (cases "of_int d * (2 powi k) \<le> (of_int p :: rat)")
    case True
    then show ?thesis using il dq q by (simp add: pos_le_divide_eq mult.commute)
  next
    case False
    then show ?thesis using il dq q low by (simp add: pos_le_divide_eq mult.commute)
  qed
  show "q < 2 powi (ilog2 q + 1)"
  proof (cases "of_int d * (2 powi k) \<le> (of_int p :: rat)")
    case True
    then show ?thesis using il dq q up by (simp add: pos_divide_less_eq mult.commute)
  next
    case False
    then show ?thesis using il dq q by (simp add: pos_divide_less_eq mult.commute)
  qed
qed

lemma ilog2_unique:
  assumes "2 powi k \<le> q" "q < 2 powi (k + 1)"
  shows "ilog2 q = k"
proof -
  have q0: "0 < q" using assms(1) powi2_pos [of k] by linarith
  note b = ilog2_bounds [OF q0]
  have "(2::rat) powi k < 2 powi (ilog2 q + 1)" using assms(1) b(2) by linarith
  then have 1: "k < ilog2 q + 1" by (simp add: powi2_less_iff)
  have "(2::rat) powi (ilog2 q) < 2 powi (k + 1)" using assms(2) b(1) by linarith
  then have 2: "ilog2 q < k + 1" by (simp add: powi2_less_iff)
  from 1 2 show ?thesis by linarith
qed

lemma ilog2_mono:
  assumes "0 < a" "a \<le> b"
  shows "ilog2 a \<le> ilog2 b"
proof -
  have b0: "0 < b" using assms by linarith
  have "(2::rat) powi (ilog2 a) < 2 powi (ilog2 b + 1)"
    using ilog2_bounds(1) [OF assms(1)] ilog2_bounds(2) [OF b0] assms(2) by linarith
  then show ?thesis by (simp add: powi2_less_iff)
qed

lemma round_half_even_of_int [simp]: "round_half_even (of_int n) = n"
  by (simp add: round_half_even_def)

lemma round_half_even_range:
  "round_half_even x = \<lfloor>x\<rfloor> \<or> round_half_even x = \<lfloor>x\<rfloor> + 1"
  by (simp add: round_half_even_def Let_def)

lemma round_half_even_mono:
  assumes "x \<le> y"
  shows "round_half_even x \<le> round_half_even y"
proof (cases "\<lfloor>x\<rfloor> = \<lfloor>y\<rfloor>")
  case True
  with assms show ?thesis
    by (auto simp: round_half_even_def Let_def)
next
  case False
  with assms have "\<lfloor>x\<rfloor> < \<lfloor>y\<rfloor>"
    using floor_mono [of x y] by linarith
  moreover have "round_half_even x \<le> \<lfloor>x\<rfloor> + 1"
    using round_half_even_range [of x] by auto
  moreover have "\<lfloor>y\<rfloor> \<le> round_half_even y"
    using round_half_even_range [of y] by auto
  ultimately show ?thesis by linarith
qed

lemma round_half_even_le: "x \<le> of_int m \<Longrightarrow> round_half_even x \<le> m"
  using round_half_even_mono [of x "of_int m"] by simp

lemma round_half_even_ge: "of_int m \<le> x \<Longrightarrow> m \<le> round_half_even x"
  using round_half_even_mono [of "of_int m" x] by simp

lemma round_half_even_near:
  "\<bar>of_int (round_half_even x) - x\<bar> \<le> 1 / 2"
proof -
  have "of_int \<lfloor>x\<rfloor> \<le> x" "x < of_int \<lfloor>x\<rfloor> + 1" by linarith+
  then show ?thesis
    unfolding round_half_even_def Let_def by (simp add: abs_if) linarith
qed

lemma round_half_even_minus: "round_half_even (- x) = - round_half_even x"
proof (cases "of_int \<lfloor>x\<rfloor> = x")
  case True
  then obtain n where "x = of_int n" by metis
  then show ?thesis by (simp flip: of_int_minus)
next
  case False
  then have lt: "of_int \<lfloor>x\<rfloor> < x" by linarith
  have "x < of_int \<lfloor>x\<rfloor> + 1" by linarith
  with lt have f: "\<lfloor>- x\<rfloor> = - \<lfloor>x\<rfloor> - 1" by linarith
  show ?thesis
    unfolding round_half_even_def Let_def f using lt
    by (auto simp: algebra_simps)
qed

lemma round_half_even_frac:
  assumes "0 < d"
  shows "round_half_even (of_int p / of_int d) =
    (if 2 * (p mod d) < d then p div d
     else if d < 2 * (p mod d) then p div d + 1
     else if even (p div d) then p div d else p div d + 1)"
proof -
  have fl: "\<lfloor>(of_int p :: rat) / of_int d\<rfloor> = p div d"
    by (rule floor_divide_of_int_eq)
  have "of_int (p div d * d + p mod d) = (of_int p :: rat)"
    by (simp only: div_mult_mod_eq)
  then have "(of_int p :: rat) = of_int (p div d) * of_int d + of_int (p mod d)"
    by (simp only: of_int_add of_int_mult)
  then have "(of_int p :: rat) / of_int d - of_int (p div d) = of_int (p mod d) / of_int d"
    using assms by (simp add: field_simps)
  moreover have "(of_int (p mod d) / of_int d < (1::rat) / 2) = (2 * (p mod d) < d)"
  proof -
    have "(of_int (p mod d) / of_int d < (1::rat) / 2) = ((of_int (2 * (p mod d)) :: rat) < of_int d)"
      using assms by (simp add: field_simps)
    also have "\<dots> = (2 * (p mod d) < d)" by (simp only: of_int_less_iff)
    finally show ?thesis .
  qed
  moreover have "((1::rat) / 2 < of_int (p mod d) / of_int d) = (d < 2 * (p mod d))"
  proof -
    have "((1::rat) / 2 < of_int (p mod d) / of_int d) = ((of_int d :: rat) < of_int (2 * (p mod d)))"
      using assms by (simp add: field_simps)
    also have "\<dots> = (d < 2 * (p mod d))" by (simp only: of_int_less_iff)
    finally show ?thesis .
  qed
  ultimately show ?thesis
    unfolding round_half_even_def Let_def fl by simp
qed

lemma quantum_pos: "0 < quantum q"
  by (simp add: quantum_def)

lemma exponent_minus: "exponent (- q) = exponent q"
  by (simp add: exponent_def)

lemma quantum_minus: "quantum (- q) = quantum q"
  by (simp add: quantum_def exponent_minus)

lemma exponent_ge: "- 1022 \<le> exponent q"
  by (simp add: exponent_def)

lemma exponent_mono:
  assumes "a \<noteq> 0" "\<bar>a\<bar> \<le> \<bar>b\<bar>"
  shows "exponent a \<le> exponent b"
  using ilog2_mono [of "\<bar>a\<bar>" "\<bar>b\<bar>"] assms by (simp add: exponent_def)

lemma quantum_split:
  assumes "exponent a \<le> exponent b"
  shows "quantum b = 2 ^ nat (exponent b - exponent a) * quantum a"
  using powi2_split [of "exponent a - 52" "exponent b - 52"] assms
  by (simp add: quantum_def)

lemma abs_less_exponent:
  assumes "q \<noteq> 0"
  shows "\<bar>q\<bar> < 2 powi (exponent q + 1)"
proof -
  have "\<bar>q\<bar> < 2 powi (ilog2 \<bar>q\<bar> + 1)"
    using ilog2_bounds(2) [of "\<bar>q\<bar>"] assms by simp
  also have "\<dots> \<le> 2 powi (exponent q + 1)"
    by (simp add: powi2_le_iff exponent_def)
  finally show ?thesis .
qed

lemma exponent_unique:
  assumes "2 powi k \<le> \<bar>q\<bar>" "\<bar>q\<bar> < 2 powi (k + 1)"
  shows "exponent q = max k (- 1022)"
  using ilog2_unique [OF assms] by (simp add: exponent_def)

lemma exponent_le:
  assumes "q \<noteq> 0" "\<bar>q\<bar> < 2 powi (k + 1)" "- 1022 \<le> k"
  shows "exponent q \<le> k"
proof -
  have "2 powi (ilog2 \<bar>q\<bar>) < (2::rat) powi (k + 1)"
    using ilog2_bounds(1) [of "\<bar>q\<bar>"] assms by simp
  then have "ilog2 \<bar>q\<bar> \<le> k" by (simp add: powi2_less_iff)
  with assms(3) show ?thesis by (simp add: exponent_def)
qed

lemma scaled_less:
  assumes "q \<noteq> 0"
  shows "\<bar>q / quantum q\<bar> < 2 ^ 53"
proof -
  have "2 powi (exponent q + 1) = (2 ^ 53 :: rat) * quantum q"
    using powi2_split [of "exponent q - 52" "exponent q + 1"] by (simp add: quantum_def)
  with abs_less_exponent [OF assms] have "\<bar>q\<bar> < 2 ^ 53 * quantum q" by simp
  then show ?thesis
    using quantum_pos [of q] by (simp add: abs_divide pos_divide_less_eq abs_of_pos)
qed

lemma round_half_even_zero [simp]: "round_half_even 0 = 0"
  using round_half_even_of_int [of 0] by simp

lemma mantissa_le:
  assumes "q \<noteq> 0"
  shows "\<bar>round_half_even (q / quantum q)\<bar> \<le> 2 ^ 53"
proof -
  define x where "x = q / quantum q"
  from scaled_less [OF assms] have "\<bar>x\<bar> < 2 ^ 53" by (simp only: x_def)
  then have "x \<le> of_int (2 ^ 53)" "of_int (- (2 ^ 53)) \<le> x"
    by (simp_all add: abs_less_iff)
  then have "round_half_even x \<le> 2 ^ 53" "- (2 ^ 53) \<le> round_half_even x"
    using round_half_even_le [of x "2 ^ 53"] round_half_even_ge [of "- (2 ^ 53)" x] by blast+
  then show ?thesis by (simp add: abs_le_iff x_def)
qed

lemma round_double_nonzero:
  assumes "q \<noteq> 0"
  shows "round_double q =
    (let r = of_int (round_half_even (q / quantum q)) * quantum q
     in if 2 powi 1024 \<le> r then PosInfinity
        else if r \<le> - (2 powi 1024) then NegInfinity
        else Finite r)"
  using assms by (simp add: round_double_def)

lemma overflow_minus:
  assumes "(0::rat) < P"
  shows "(if P \<le> - r then PosInfinity else if - r \<le> - P then NegInfinity else Finite (- r))
       = num_neg (if P \<le> r then PosInfinity else if r \<le> - P then NegInfinity else Finite r)"
  using assms by auto

lemma round_double_minus: "round_double (- q) = num_neg (round_double q)"
proof (cases "q = 0")
  case True
  then show ?thesis by (simp add: round_double_def)
next
  case False
  have p: "(0::rat) < 2 powi 1024" by simp
  show ?thesis
    using False overflow_minus [OF p]
    by (simp add: round_double_nonzero quantum_minus round_half_even_minus Let_def
        del: power_int_numeral)
qed

lemma on_grid_representable:
  assumes "r = of_int m * quantum r" "\<bar>r\<bar> < 2 powi 1024"
  shows "representable r"
proof (cases "r = 0")
  case True
  then show ?thesis by (simp add: representable_def round_double_def)
next
  case False
  have "r / quantum r = of_int m"
    using assms(1) quantum_pos [of r] by (simp add: field_simps)
  then have "of_int (round_half_even (r / quantum r)) * quantum r = r"
    using assms(1) by simp
  then show ?thesis
    using False assms(2)
    by (simp add: representable_def round_double_nonzero Let_def abs_less_iff
        del: power_int_numeral)
qed

lemma representable_on_grid:
  assumes "representable r"
  shows "r = of_int (round_half_even (r / quantum r)) * quantum r" "\<bar>r\<bar> < 2 powi 1024"
proof -
  have "r = of_int (round_half_even (r / quantum r)) * quantum r \<and> \<bar>r\<bar> < 2 powi 1024"
  proof (cases "r = 0")
    case True
    then show ?thesis by simp
  next
    case False
    with assms show ?thesis
      by (auto simp: representable_def round_double_nonzero Let_def abs_less_iff
          split: if_splits simp del: power_int_numeral)
  qed
  then show "r = of_int (round_half_even (r / quantum r)) * quantum r" "\<bar>r\<bar> < 2 powi 1024"
    by blast+
qed

lemma round_double_Finite:
  assumes "round_double q = Finite r"
  shows "r = of_int (round_half_even (q / quantum q)) * quantum q" "\<bar>r\<bar> < 2 powi 1024"
proof -
  have "r = of_int (round_half_even (q / quantum q)) * quantum q \<and> \<bar>r\<bar> < 2 powi 1024"
  proof (cases "q = 0")
    case True
    with assms show ?thesis by (simp add: round_double_def)
  next
    case False
    with assms show ?thesis
      by (auto simp: round_double_nonzero Let_def abs_less_iff
          split: if_splits simp del: power_int_numeral)
  qed
  then show "r = of_int (round_half_even (q / quantum q)) * quantum q" "\<bar>r\<bar> < 2 powi 1024"
    by blast+
qed

lemma representable_zero [simp]: "representable 0"
  by (simp add: representable_def round_double_def)

lemma round_double_representable:
  assumes "round_double q = Finite r"
  shows "representable r"
proof (cases "r = 0")
  case True
  then show ?thesis by simp
next
  case False
  have q0: "q \<noteq> 0"
    using assms False by (auto simp: round_double_def)
  define n where "n = round_half_even (q / quantum q)"
  have r: "r = of_int n * quantum q" and fin: "\<bar>r\<bar> < 2 powi 1024"
    using round_double_Finite [OF assms] by (simp_all add: n_def)
  have n53: "\<bar>n\<bar> \<le> 2 ^ 53"
    using mantissa_le [OF q0] by (simp add: n_def)
  have top: "2 powi (exponent q + 1) = (2 ^ 53 :: rat) * quantum q"
    using powi2_split [of "exponent q - 52" "exponent q + 1"] by (simp add: quantum_def)
  have absr: "\<bar>r\<bar> = of_int \<bar>n\<bar> * quantum q"
    using quantum_pos [of q] by (simp add: r abs_mult abs_of_pos)
  show ?thesis
  proof (cases "\<bar>n\<bar> < 2 ^ 53")
    case True
    then have "(of_int \<bar>n\<bar> :: rat) < of_int (2 ^ 53)"
      by (simp only: of_int_less_iff)
    then have "\<bar>r\<bar> < 2 powi (exponent q + 1)"
      unfolding absr top using quantum_pos [of q] by (simp add: mult_strict_right_mono)
    then have "exponent r \<le> exponent q"
      using exponent_le [OF False _ exponent_ge] by blast
    from quantum_split [OF this]
    have "r = of_int (n * 2 ^ nat (exponent q - exponent r)) * quantum r"
      by (simp add: r)
    then show ?thesis using fin by (rule on_grid_representable)
  next
    case False
    with n53 have n: "\<bar>n\<bar> = 2 ^ 53" by linarith
    have eq: "\<bar>r\<bar> = 2 powi (exponent q + 1)"
      unfolding absr top n by simp
    have "exponent r = max (exponent q + 1) (- 1022)"
      by (rule exponent_unique) (simp_all add: eq powi2_less_iff)
    then have er: "exponent r = exponent q + 1"
      using exponent_ge [of q] by simp
    have qr: "quantum r = 2 * quantum q"
      using powi2_split [of "exponent q - 52" "exponent q + 1 - 52"]
      by (simp add: quantum_def er)
    from n have "n = 2 ^ 53 \<or> n = - (2 ^ 53)" by linarith
    then have "n = 2 * (n div 2)" by (elim disjE) simp_all
    then have "(of_int n :: rat) = 2 * of_int (n div 2)"
      by (metis of_int_mult of_int_numeral)
    then have step: "r = of_int (n div 2) * (2 * quantum q)"
      by (simp add: r)
    have "r = of_int (n div 2) * quantum r"
      unfolding qr by (rule step)
    then show ?thesis using fin by (rule on_grid_representable)
  qed
qed

lemma round_double_le:
  assumes "0 \<le> q" "q \<le> b" "representable b"
  shows "\<exists>r. round_double q = Finite r \<and> 0 \<le> r \<and> r \<le> b"
proof (cases "q = 0")
  case True
  with assms show ?thesis by (simp add: round_double_def)
next
  case False
  with assms have q: "0 < q" and b: "0 < b" by linarith+
  define n where "n = round_half_even (q / quantum q)"
  define m where "m = round_half_even (b / quantum b)"
  have bg: "b = of_int m * quantum b" and bfin: "\<bar>b\<bar> < 2 powi 1024"
    using representable_on_grid [OF assms(3)] by (simp_all add: m_def)
  have "exponent q \<le> exponent b"
    using exponent_mono [of q b] q assms(2) by simp
  from quantum_split [OF this]
  have bq: "b = of_int (m * 2 ^ nat (exponent b - exponent q)) * quantum q"
    using bg by simp
  define M where "M = m * 2 ^ nat (exponent b - exponent q)"
  have bM: "b = of_int M * quantum q" using bq by (simp add: M_def)
  have "q / quantum q \<le> of_int M"
    using assms(2) quantum_pos [of q] unfolding bM by (simp add: pos_divide_le_eq)
  then have nM: "n \<le> M" unfolding n_def by (rule round_half_even_le)
  have "of_int 0 \<le> q / quantum q"
    using q quantum_pos [of q] by simp
  then have n0: "0 \<le> n" unfolding n_def by (rule round_half_even_ge)
  define r where "r = of_int n * quantum q"
  have r0: "0 \<le> r" using n0 quantum_pos [of q] by (simp add: r_def)
  have "(of_int n :: rat) \<le> of_int M" using nM by (simp only: of_int_le_iff)
  then have rb: "r \<le> b"
    unfolding r_def bM using quantum_pos [of q] by (simp add: mult_right_mono)
  have "r < 2 powi 1024" using rb bfin by (simp add: abs_less_iff)
  moreover have "- (2 powi 1024) < r"
    using r0 powi2_pos [of 1024] by linarith
  ultimately have "round_double q = Finite r"
    using False by (simp add: round_double_nonzero Let_def r_def n_def del: power_int_numeral)
  with r0 rb show ?thesis by blast
qed

lemma round_double_nonneg:
  assumes "0 \<le> q"
  shows "round_double q = PosInfinity \<or> (\<exists>r. round_double q = Finite r \<and> 0 \<le> r)"
proof (cases "q = 0")
  case True
  then show ?thesis by (simp add: round_double_def)
next
  case False
  have "of_int 0 \<le> q / quantum q"
    using assms quantum_pos [of q] by simp
  then have "0 \<le> round_half_even (q / quantum q)" by (rule round_half_even_ge)
  then have "0 \<le> of_int (round_half_even (q / quantum q)) * quantum q"
    using quantum_pos [of q] by simp
  moreover have "(0::rat) < 2 powi 1024" by simp
  ultimately show ?thesis
    using False by (auto simp: round_double_nonzero Let_def simp del: power_int_numeral)
qed

lemma quantum_le:
  assumes "2 powi (- 1074) \<le> q"
  shows "quantum q \<le> q"
proof -
  have q: "0 < q" using assms powi2_pos [of "- 1074"] by linarith
  show ?thesis
  proof (cases "- 1022 \<le> ilog2 q")
    case True
    then have "quantum q = 2 powi (ilog2 q - 52)"
      using q by (simp add: quantum_def exponent_def)
    also have "\<dots> \<le> 2 powi (ilog2 q)" by (simp add: powi2_le_iff)
    also have "\<dots> \<le> q" by (rule ilog2_bounds(1) [OF q])
    finally show ?thesis .
  next
    case False
    then have "quantum q = 2 powi (- 1074)"
      using q by (simp add: quantum_def exponent_def)
    with assms show ?thesis by simp
  qed
qed

lemma round_double_pos:
  assumes "2 powi (- 1074) \<le> q"
  shows "round_double q = PosInfinity \<or> (\<exists>r. round_double q = Finite r \<and> 0 < r)"
proof -
  have q: "0 < q" using assms powi2_pos [of "- 1074"] by linarith
  have "of_int 1 \<le> q / quantum q"
    using quantum_le [OF assms] quantum_pos [of q] by (simp add: pos_le_divide_eq)
  then have "1 \<le> round_half_even (q / quantum q)" by (rule round_half_even_ge)
  then have "(of_int 1 :: rat) \<le> of_int (round_half_even (q / quantum q))"
    by (simp only: of_int_le_iff)
  then have "0 < of_int (round_half_even (q / quantum q)) * quantum q"
    using quantum_pos [of q] by simp
  moreover have "(0::rat) < 2 powi 1024" by simp
  ultimately show ?thesis
    using q by (auto simp: round_double_nonzero Let_def simp del: power_int_numeral)
qed

lemma representable_multiple:
  assumes "representable a"
  shows "\<exists>m. a = of_int m * 2 powi (- 1074)"
proof -
  define c where "c = (2::rat) powi (- 1074)"
  define k where "k = nat (exponent a - 52 - (- 1074))"
  define N where "N = round_half_even (a / quantum a)"
  have "quantum a = 2 ^ k * c"
    unfolding quantum_def c_def k_def using exponent_ge [of a] by (intro powi2_split) simp
  moreover have "a = of_int N * quantum a"
    unfolding N_def by (rule representable_on_grid(1) [OF assms])
  ultimately have "a = of_int (N * 2 ^ k) * c" by simp
  then show ?thesis unfolding c_def ..
qed

lemma representable_gap:
  assumes "representable a" "representable b" "a < b"
  shows "2 powi (- 1074) \<le> b - a"
proof -
  define c where "c = (2::rat) powi (- 1074)"
  have c: "0 < c" by (simp add: c_def)
  obtain m n where a: "a = of_int m * c" and b: "b = of_int n * c"
    using representable_multiple assms(1,2) unfolding c_def by blast
  have "(of_int m :: rat) < of_int n"
    using assms(3) c unfolding a b by (simp only: mult_less_cancel_right_pos)
  then have "m + 1 \<le> n" by simp
  then have "(of_int (m + 1) :: rat) \<le> of_int n" by (simp only: of_int_le_iff)
  then have "of_int (m + 1) * c \<le> of_int n * c"
    using c by (simp only: mult_le_cancel_right_pos)
  then have "c \<le> b - a" unfolding a b by (simp add: algebra_simps)
  then show ?thesis unfolding c_def .
qed

lemma representable_minus: "representable (- a) = representable a"
  using round_double_minus [of a]
  by (cases "round_double a") (auto simp: representable_def)

lemma difference_negative:
  assumes "representable a" "representable b"
  shows "is_negative (round_double (a - b)) \<longleftrightarrow> a < b"
proof (cases "a < b")
  case True
  from round_double_pos [OF representable_gap [OF assms True]]
  have "is_negative (num_neg (round_double (b - a)))" by auto
  then show ?thesis
    using True round_double_minus [of "b - a"] by simp
next
  case False
  then have "0 \<le> a - b" by simp
  from round_double_nonneg [OF this] False show ?thesis by auto
qed

lemma round_double_eval:
  assumes "2 powi k \<le> \<bar>q\<bar>" "\<bar>q\<bar> < 2 powi (k + 1)" "- 1022 \<le> k"
    and "round_half_even (q / 2 powi (k - 52)) = n"
    and "\<bar>of_int n * 2 powi (k - 52)\<bar> < (2 powi 1024 :: rat)"
  shows "round_double q = Finite (of_int n * 2 powi (k - 52))"
proof -
  have "0 < \<bar>q\<bar>" using assms(1) powi2_pos [of k] by linarith
  then have q0: "q \<noteq> 0" by simp
  have "exponent q = k" using exponent_unique [OF assms(1,2)] assms(3) by simp
  then have "quantum q = 2 powi (k - 52)" by (simp add: quantum_def)
  then show ?thesis
    using q0 assms(4,5)
    by (simp add: round_double_nonzero Let_def abs_less_iff del: power_int_numeral)
qed

lemma round_half_even_numeral:
  "round_half_even (numeral p / numeral d) =
    (if 2 * (numeral p mod numeral d) < (numeral d :: int) then numeral p div numeral d
     else if (numeral d :: int) < 2 * (numeral p mod numeral d) then numeral p div numeral d + 1
     else if even (numeral p div numeral d :: int) then numeral p div numeral d
     else numeral p div numeral d + 1)"
  using round_half_even_frac [of "numeral d" "numeral p"] by simp

lemma round_half_even_numeral_int: "round_half_even (numeral p) = numeral p"
  using round_half_even_of_int [of "numeral p"] by simp

lemma round_double_ge:
  assumes "0 < b" "b \<le> q" "representable b"
  shows "round_double q = PosInfinity \<or> (\<exists>r. round_double q = Finite r \<and> b \<le> r)"
proof -
  have q: "0 < q" using assms by linarith
  define n where "n = round_half_even (q / quantum q)"
  define m where "m = round_half_even (b / quantum b)"
  have bg: "b = of_int m * quantum b"
    using representable_on_grid(1) [OF assms(3)] by (simp add: m_def)
  have le: "exponent b \<le> exponent q"
    using exponent_mono [of b q] assms(1,2) by simp
  have "b \<le> of_int n * quantum q"
  proof (cases "exponent b = exponent q")
    case True
    define u where "u = quantum b"
    have u: "0 < u" "quantum q = u" "b = of_int m * u"
      using True bg quantum_pos [of b] by (simp_all add: u_def quantum_def)
    have "of_int m \<le> q / u"
      using assms(2) u(1) unfolding u(3) by (simp add: pos_le_divide_eq)
    then have "m \<le> n" unfolding n_def u(2) by (rule round_half_even_ge)
    then have "(of_int m :: rat) \<le> of_int n" by (simp only: of_int_le_iff)
    then have "of_int m * u \<le> of_int n * u"
      using u(1) by (simp only: mult_le_cancel_right_pos)
    then show ?thesis unfolding u(2) u(3) .
  next
    case False
    with le have lt: "exponent b < exponent q" by simp
    then have "- 1022 < exponent q" using exponent_ge [of b] by linarith
    then have eq: "exponent q = ilog2 q"
      using q by (simp add: exponent_def)
    have lo: "2 powi (exponent q) \<le> q"
      unfolding eq by (rule ilog2_bounds(1) [OF q])
    have top: "2 powi (exponent q) = (2 ^ 52 :: rat) * quantum q"
      using powi2_split [of "exponent q - 52" "exponent q"] by (simp add: quantum_def)
    have "of_int (2 ^ 52) \<le> q / quantum q"
      using lo quantum_pos [of q] unfolding top by (simp add: pos_le_divide_eq)
    then have "2 ^ 52 \<le> n" unfolding n_def by (rule round_half_even_ge)
    then have "(of_int (2 ^ 52) :: rat) \<le> of_int n" by (simp only: of_int_le_iff)
    then have "of_int (2 ^ 52) * quantum q \<le> of_int n * quantum q"
      using quantum_pos [of q] by (simp only: mult_le_cancel_right_pos)
    then have "2 powi (exponent q) \<le> of_int n * quantum q"
      unfolding top by simp
    moreover have "b < 2 powi (exponent b + 1)"
      using abs_less_exponent [of b] assms(1) by simp
    moreover have "(2::rat) powi (exponent b + 1) \<le> 2 powi (exponent q)"
      using lt by (simp add: powi2_le_iff)
    ultimately show ?thesis by linarith
  qed
  moreover have "(0::rat) < 2 powi 1024" by simp
  ultimately show ?thesis
    using q assms(1)
    by (auto simp: round_double_nonzero Let_def n_def simp del: power_int_numeral)
qed

lemma round_double_nonpos:
  assumes "q \<le> 0"
  shows "round_double q = NegInfinity \<or> (\<exists>r. round_double q = Finite r \<and> r \<le> 0)"
  using round_double_nonneg [of "- q"] assms round_double_minus [of q]
  by (cases "round_double q") auto

text \<open>Rounding never crosses a double: a representable upper bound of \<open>q\<close> bounds its rounding.\<close>

lemma round_double_upper:
  assumes "q \<le> b" "representable b"
  shows "num_le (round_double q) (Finite b)"
proof -
  consider "0 \<le> q" | "q < 0" "0 \<le> b" | "q < 0" "b < 0" by linarith
  then show ?thesis
  proof cases
    case 1
    from round_double_le [OF 1 assms] show ?thesis by (auto simp: num_le_def)
  next
    case 2
    from round_double_nonpos [of q] 2 show ?thesis by (auto simp: num_le_def)
  next
    case 3
    have "representable (- b)" using assms(2) by (simp add: representable_minus)
    from round_double_ge [of "- b" "- q", OF _ _ this] 3 assms(1)
    have "round_double (- q) = PosInfinity \<or> (\<exists>r. round_double (- q) = Finite r \<and> - b \<le> r)"
      by simp
    then show ?thesis
      using round_double_minus [of q]
      by (cases "round_double q") (auto simp: num_le_def)
  qed
qed

lemma round_double_lower:
  assumes "b \<le> q" "representable b"
  shows "num_le (Finite b) (round_double q)"
proof -
  have "num_le (round_double (- q)) (Finite (- b))"
    using assms by (intro round_double_upper) (simp_all add: representable_minus)
  then show ?thesis
    using round_double_minus [of q]
    by (cases "round_double q") (auto simp: num_le_def)
qed


section \<open>Facts about parsing, ordering and sorting\<close>

lemma is_double_round_double: "is_double (round_double q)"
  by (cases "round_double q") (simp_all add: round_double_representable)

lemma is_double_num_neg: "is_double (num_neg x) = is_double x"
  by (cases x) (simp_all add: representable_minus)

lemma is_double_unsigned_literal: "is_double (unsigned_literal s)"
  by (simp add: unsigned_literal_def decimal_value_def is_double_round_double Let_def
      split: list.split)

lemma is_double_parseFloat: "is_double (parseFloat s)"
  by (simp add: parseFloat_def is_double_num_neg is_double_unsigned_literal split: list.split)

lemma is_double_num_add: "is_double x \<Longrightarrow> is_double y \<Longrightarrow> is_double (num_add x y)"
  by (cases x; cases y) (simp_all add: is_double_round_double del: is_double.simps(1))

lemma num_le_total: "x \<noteq> NaN \<Longrightarrow> y \<noteq> NaN \<Longrightarrow> num_le x y \<or> num_le y x"
  by (cases x; cases y) (auto simp: num_le_def)

lemma num_le_trans: "num_le x y \<Longrightarrow> num_le y z \<Longrightarrow> num_le x z"
  by (cases x; cases y; cases z) (auto simp: num_le_def)

lemma num_le_refl: "x \<noteq> NaN \<Longrightarrow> num_le x x"
  by (cases x) (auto simp: num_le_def)

lemma negative_difference:
  assumes "is_double x" "is_double y" "x \<noteq> NaN" "y \<noteq> NaN"
  shows "is_negative (num_sub x y) \<longleftrightarrow> \<not> num_le y x"
proof (cases x; cases y)
  fix a b assume "x = Finite a" "y = Finite b"
  with assms difference_negative [of a b] show ?thesis
    by (auto simp: num_sub_def num_le_def)
qed (use assms in \<open>simp_all add: num_sub_def num_le_def\<close>)

lemma higher_output_iff:
  assumes "outputAmount a \<noteq> NaN" "outputAmount b \<noteq> NaN"
  shows "higher_output a b \<longleftrightarrow> \<not> num_le (outputAmount a) (outputAmount b)"
  unfolding higher_output_def
  using negative_difference [of "outputAmount b" "outputAmount a"] assms
  by (simp add: outputAmount_def is_double_parseFloat)

lemma set_insert_by: "set (insert_by lt x ys) = insert x (set ys)"
  by (induction ys) auto

lemma mset_insert_by: "mset (insert_by lt x ys) = add_mset x (mset ys)"
  by (induction ys) auto

lemma length_insert_by: "length (insert_by lt x ys) = Suc (length ys)"
  by (induction ys) auto

lemma mset_foldl_insert_by:
  "mset (foldl (\<lambda>acc x. insert_by lt x acc) acc xs) = mset acc + mset xs"
  by (induction xs arbitrary: acc) (simp_all add: mset_insert_by)

lemma mset_Array_sort: "mset (Array_sort lt xs) = mset xs"
  by (simp add: Array_sort_def mset_foldl_insert_by)

lemma set_Array_sort: "set (Array_sort lt xs) = set xs"
  using mset_Array_sort [of lt xs] by (metis set_mset_mset)

lemma length_Array_sort: "length (Array_sort lt xs) = length xs"
  using mset_Array_sort [of lt xs] by (metis size_mset)

text \<open>
  Insertion keeps a list ordered when, on the elements involved, the comparator is the
  strict part of a total preorder given by a key.
\<close>

lemma sorted_insert_by:
  assumes "sorted_wrt (\<lambda>a b. num_le (key b) (key a)) ys"
    and "\<forall>a \<in> insert x (set ys). key a \<noteq> NaN"
    and "\<forall>a \<in> insert x (set ys). \<forall>b \<in> insert x (set ys). lt a b \<longleftrightarrow> \<not> num_le (key a) (key b)"
  shows "sorted_wrt (\<lambda>a b. num_le (key b) (key a)) (insert_by lt x ys)"
  using assms
proof (induction ys)
  case Nil
  then show ?case by simp
next
  case (Cons y ys)
  show ?case
  proof (cases "lt x y")
    case True
    with Cons.prems(3) have xy: "\<not> num_le (key x) (key y)" by simp
    with Cons.prems(2) have yx: "num_le (key y) (key x)"
      using num_le_total [of "key x" "key y"] by auto
    have "\<forall>z \<in> set ys. num_le (key z) (key x)"
      using Cons.prems(1) yx num_le_trans by auto
    with True yx Cons.prems(1) show ?thesis by auto
  next
    case False
    with Cons.prems(3) have xy: "num_le (key x) (key y)" by simp
    have "sorted_wrt (\<lambda>a b. num_le (key b) (key a)) (insert_by lt x ys)"
      using Cons.prems by (intro Cons.IH) auto
    with False xy Cons.prems(1) show ?thesis
      by (auto simp: set_insert_by)
  qed
qed

lemma sorted_foldl_insert_by:
  assumes "sorted_wrt (\<lambda>a b. num_le (key b) (key a)) acc"
    and "\<forall>a \<in> set acc \<union> set xs. key a \<noteq> NaN"
    and "\<forall>a \<in> set acc \<union> set xs. \<forall>b \<in> set acc \<union> set xs. lt a b \<longleftrightarrow> \<not> num_le (key a) (key b)"
  shows "sorted_wrt (\<lambda>a b. num_le (key b) (key a)) (foldl (\<lambda>acc x. insert_by lt x acc) acc xs)"
  using assms
proof (induction xs arbitrary: acc)
  case Nil
  then show ?case by simp
next
  case (Cons x xs)
  have "sorted_wrt (\<lambda>a b. num_le (key b) (key a)) (insert_by lt x acc)"
    using Cons.prems by (intro sorted_insert_by) auto
  moreover have "set (insert_by lt x acc) \<union> set xs = set acc \<union> set (x # xs)"
    by (auto simp: set_insert_by)
  ultimately show ?case
    using Cons.prems(2,3) by (simp only: foldl_Cons) (intro Cons.IH, simp_all)
qed

lemma sorted_Array_sort:
  assumes "\<forall>a \<in> set xs. key a \<noteq> NaN"
    and "\<forall>a \<in> set xs. \<forall>b \<in> set xs. lt a b \<longleftrightarrow> \<not> num_le (key a) (key b)"
  shows "sorted_wrt (\<lambda>a b. num_le (key b) (key a)) (Array_sort lt xs)"
  unfolding Array_sort_def using assms by (intro sorted_foldl_insert_by) simp_all

lemma round_double_evalI:
  assumes "2 powi k \<le> \<bar>q\<bar>" "\<bar>q\<bar> < 2 powi (k + 1)" "- 1022 \<le> k"
    and "round_half_even (q / 2 powi (k - 52)) = n"
    and "of_int n * 2 powi (k - 52) = r"
    and "\<bar>r\<bar> < 2 powi 1024"
  shows "round_double q = Finite r"
  using round_double_eval [OF assms(1-4)] assms(5,6) by simp

lemma floor_rat_numeral: "\<lfloor>(numeral a :: rat) / numeral b\<rfloor> = numeral a div numeral b"
  using floor_divide_of_int_eq [of "numeral a" "numeral b", where ?'a = rat] by simp

lemmas parse_simps =
  parseFloat_def unsigned_literal_def is_white_def is_digit_def decimal_value_def
  digits_value_def digit_value_def exponent_part_def signed_integer_def


section \<open>Facts about the aggregator\<close>

lemma map_filter_has_quote:
  "List.map_filter fulfilled_value xs = List.map_filter fulfilled_value (filter has_quote xs)"
proof (induction xs)
  case Nil
  then show ?case by simp
next
  case (Cons x xs)
  then show ?case
    by (cases x rule: has_quote.cases) (simp_all add: List.map_filter_simps fulfilled_value_def)
qed

lemma valid_quotes_none:
  "filter has_quote xs = [] \<Longrightarrow> List.map_filter fulfilled_value xs = []"
  using map_filter_has_quote [of xs] by (simp add: List.map_filter_simps)

lemma valid_quotes_one:
  "filter has_quote xs = [Fulfilled (Some q)] \<Longrightarrow> List.map_filter fulfilled_value xs = [q]"
  using map_filter_has_quote [of xs] by (simp add: List.map_filter_simps fulfilled_value_def)

lemma findBestRate_no_quotes:
  assumes "List.map_filter fulfilled_value
    [getSaucerSwapQuote this ti to am, getHeliSwapQuote this ti to am, getPangolinQuote this ti to am] = []"
  shows "DeFiAggregator_findBestRate this clock ti to am =
    Inl (ErrorObj ''Failed to find best rate: No valid quotes found from any DEX'')"
  unfolding DeFiAggregator_findBestRate_def Let_def assms
  by (simp add: rethrow_def)

lemma findBestRate_quotes:
  assumes "List.map_filter fulfilled_value
    [getSaucerSwapQuote this ti to am, getHeliSwapQuote this ti to am, getPangolinQuote this ti to am] = vs"
    and "vs \<noteq> []"
  shows "DeFiAggregator_findBestRate this clock ti to am =
    Inr \<lparr>bestQuote = Array_sort higher_output vs ! 0,
         allQuotes = Array_sort higher_output vs,
         averageRate = toFixed 6 (mean_output (Array_sort higher_output vs)),
         savings = toFixed 6 (num_sub (outputAmount (Array_sort higher_output vs ! 0))
           (mean_output (Array_sort higher_output vs))),
         dexCount = length vs,
         rate_timestamp = clock\<rparr>"
  unfolding DeFiAggregator_findBestRate_def Let_def assms(1) mean_output_def
  using assms(2) by (simp add: rethrow_def length_Array_sort)

lemma Array_sort_one: "Array_sort lt [a] = [a]"
  by (simp add: Array_sort_def)

lemma Array_sort_two:
  "Array_sort lt [a, b] = (if lt b a then [b, a] else [a, b])"
  by (simp add: Array_sort_def)

lemma Array_sort_three_sorted:
  assumes "\<not> lt b a" "\<not> lt c a" "\<not> lt c b"
  shows "Array_sort lt [a, b, c] = [a, b, c]"
  using assms by (simp add: Array_sort_def)

lemma mean_output_simps:
  "mean_output [a] = num_div (num_add (Finite 0) (outputAmount a)) (Finite 1)"
  "mean_output [a, b] =
     num_div (num_add (num_add (Finite 0) (outputAmount a)) (outputAmount b)) (Finite 2)"
  "mean_output [a, b, c] =
     num_div (num_add (num_add (num_add (Finite 0) (outputAmount a)) (outputAmount b))
       (outputAmount c)) (Finite 3)"
  by (simp_all add: mean_output_def)

lemma mean_of_one:
  assumes "is_double v"
  shows "num_div (num_add (Finite 0) v) (Finite 1) = v"
  using assms by (cases v) (simp_all add: num_div_def representable_def)

lemma findBestRate_result:
  assumes "DeFiAggregator_findBestRate this clock ti to am = Inr r"
  shows "\<exists>vs. vs \<noteq> []
     \<and> vs = List.map_filter fulfilled_value
         [getSaucerSwapQuote this ti to am, getHeliSwapQuote this ti to am,
          getPangolinQuote this ti to am]
     \<and> r = \<lparr>bestQuote = Array_sort higher_output vs ! 0,
           allQuotes = Array_sort higher_output vs,
           averageRate = toFixed 6 (mean_output (Array_sort higher_output vs)),
           savings = toFixed 6 (num_sub (outputAmount (Array_sort higher_output vs ! 0))
             (mean_output (Array_sort higher_output vs))),
           dexCount = length vs,
           rate_timestamp = clock\<rparr>"
proof -
  define vs where "vs = List.map_filter fulfilled_value
    [getSaucerSwapQuote this ti to am, getHeliSwapQuote this ti to am,
     getPangolinQuote this ti to am]"
  have ne: "vs \<noteq> []"
  proof
    assume "vs = []"
    then have "DeFiAggregator_findBestRate this clock ti to am =
        Inl (ErrorObj ''Failed to find best rate: No valid quotes found from any DEX'')"
      unfolding vs_def by (rule findBestRate_no_quotes)
    with assms show False by simp
  qed
  from findBestRate_quotes [OF vs_def [symmetric] ne, of clock] assms ne vs_def
  show ?thesis by auto
qed

lemma best_is_head:
  assumes "DeFiAggregator_findBestRate this clock ti to am = Inr r"
  shows "allQuotes r \<noteq> []" "bestQuote r = hd (allQuotes r)" "dexCount r = length (allQuotes r)"
    "averageRate r = toFixed 6 (mean_output (allQuotes r))"
    "savings r = toFixed 6 (num_sub (outputAmount (bestQuote r)) (mean_output (allQuotes r)))"
proof -
  from findBestRate_result [OF assms] obtain vs where vs: "vs \<noteq> []"
    and r: "r = \<lparr>bestQuote = Array_sort higher_output vs ! 0,
           allQuotes = Array_sort higher_output vs,
           averageRate = toFixed 6 (mean_output (Array_sort higher_output vs)),
           savings = toFixed 6 (num_sub (outputAmount (Array_sort higher_output vs ! 0))
             (mean_output (Array_sort higher_output vs))),
           dexCount = length vs,
           rate_timestamp = clock\<rparr>"
    by blast
  have ne: "Array_sort higher_output vs \<noteq> []"
    using vs length_Array_sort [of higher_output vs] by (metis length_0_conv)
  show "allQuotes r \<noteq> []" using ne by (simp add: r)
  show "bestQuote r = hd (allQuotes r)" using ne by (simp add: r hd_conv_nth)
  show "dexCount r = length (allQuotes r)" by (simp add: r length_Array_sort)
  show "averageRate r = toFixed 6 (mean_output (allQuotes r))" by (simp add: r)
  show "savings r = toFixed 6 (num_sub (outputAmount (bestQuote r)) (mean_output (allQuotes r)))"
    by (simp add: r)
qed

lemma quotes_sorted:
  assumes "DeFiAggregator_findBestRate this clock ti to am = Inr r"
    and "\<forall>q \<in> set (allQuotes r). outputAmount q \<noteq> NaN"
  shows "sorted_wrt (\<lambda>p q. num_le (outputAmount q) (outputAmount p)) (allQuotes r)"
    and "mset (allQuotes r) = mset (List.map_filter fulfilled_value
         [getSaucerSwapQuote this ti to am, getHeliSwapQuote this ti to am,
          getPangolinQuote this ti to am])"
    and "\<forall>q \<in> set (allQuotes r). num_le (outputAmount q) (outputAmount (bestQuote r))"
proof -
  from findBestRate_result [OF assms(1)] obtain vs where vs: "vs \<noteq> []"
    and v: "vs = List.map_filter fulfilled_value
         [getSaucerSwapQuote this ti to am, getHeliSwapQuote this ti to am,
          getPangolinQuote this ti to am]"
    and a: "allQuotes r = Array_sort higher_output vs"
    by auto
  have nan: "\<forall>q \<in> set vs. outputAmount q \<noteq> NaN"
    using assms(2) by (simp add: a set_Array_sort)
  then have "\<forall>p \<in> set vs. \<forall>q \<in> set vs.
      higher_output p q \<longleftrightarrow> \<not> num_le (outputAmount p) (outputAmount q)"
    by (simp add: higher_output_iff)
  with nan show s: "sorted_wrt (\<lambda>p q. num_le (outputAmount q) (outputAmount p)) (allQuotes r)"
    unfolding a by (rule sorted_Array_sort)
  show "mset (allQuotes r) = mset (List.map_filter fulfilled_value
         [getSaucerSwapQuote this ti to am, getHeliSwapQuote this ti to am,
          getPangolinQuote this ti to am])"
    by (simp add: a mset_Array_sort v)
  note b = best_is_head [OF assms(1)]
  obtain x xs where l: "allQuotes r = x # xs" using b(1) by (cases "allQuotes r") auto
  have "num_le (outputAmount x) (outputAmount x)"
    using assms(2) l by (simp add: num_le_refl)
  with s show "\<forall>q \<in> set (allQuotes r). num_le (outputAmount q) (outputAmount (bestQuote r))"
    by (auto simp: l b(2))
qed

text \<open>Partial sums of outputs that do not exceed \<open>m\<close> stay below the multiples of \<open>m\<close>.\<close>

lemma partial_sum_bound:
  assumes "num_le acc (Finite (of_nat j * m))"
    and "\<forall>q \<in> set qs. \<exists>v. outputAmount q = Finite v \<and> v \<le> m"
    and "\<forall>k. j < k \<and> k \<le> j + length qs \<longrightarrow> representable (of_nat k * m)"
  shows "num_le (foldl (\<lambda>sum q. num_add sum (outputAmount q)) acc qs)
           (Finite (of_nat (j + length qs) * m))"
  using assms
proof (induction qs arbitrary: acc j)
  case Nil
  then show ?case by simp
next
  case (Cons q qs)
  from Cons.prems(2) obtain v where v: "outputAmount q = Finite v" "v \<le> m" by auto
  from Cons.prems(3)
  have "j < Suc j \<and> Suc j \<le> j + length (q # qs) \<longrightarrow> representable (of_nat (Suc j) * m)"
    by (rule spec)
  then have rep: "representable (of_nat (Suc j) * m)" by simp
  have step: "num_le (num_add acc (outputAmount q)) (Finite (of_nat (Suc j) * m))"
  proof (cases acc)
    case (Finite s)
    with Cons.prems(1) have "s \<le> of_nat j * m" by (simp add: num_le_def)
    with v(2) have "s + v \<le> of_nat (Suc j) * m" by (simp add: algebra_simps)
    from round_double_upper [OF this rep] show ?thesis by (simp add: Finite v(1))
  next
    case NegInfinity
    then show ?thesis by (simp add: v(1) num_le_def)
  qed (use Cons.prems(1) in \<open>simp_all add: num_le_def\<close>)
  have "num_le (foldl (\<lambda>sum q. num_add sum (outputAmount q)) (num_add acc (outputAmount q)) qs)
           (Finite (of_nat (Suc j + length qs) * m))"
    using step Cons.prems(2,3) by (intro Cons.IH) auto
  then show ?case by simp
qed

lemma mean_bound:
  assumes "qs \<noteq> []"
    and "\<forall>q \<in> set qs. \<exists>v. outputAmount q = Finite v \<and> v \<le> m"
    and "\<forall>k \<in> {1..length qs}. representable (of_nat k * m)"
  shows "num_le (mean_output qs) (Finite m)"
proof -
  let ?n = "length qs"
  have n: "0 < ?n" using assms(1) by (cases qs) simp_all
  have "num_le (Finite 0) (Finite (of_nat 0 * m))" by (simp add: num_le_def)
  from partial_sum_bound [OF this assms(2)] assms(3)
  have t: "num_le (foldl (\<lambda>sum q. num_add sum (outputAmount q)) (Finite 0) qs)
      (Finite (of_nat ?n * m))"
    by simp
  have "Suc 0 \<le> ?n" using assms(1) by (cases qs) simp_all
  then have "1 \<in> {1..?n}" by simp
  with assms(3) have "representable (of_nat 1 * m)" by (rule bspec)
  then have rep: "representable m" by simp
  show ?thesis
  proof (cases "foldl (\<lambda>sum q. num_add sum (outputAmount q)) (Finite 0) qs")
    case (Finite s)
    with t have "s \<le> of_nat ?n * m" by (simp add: num_le_def)
    then have "s / of_nat ?n \<le> m" using n by (simp add: pos_divide_le_eq mult.commute)
    from round_double_upper [OF this rep] n show ?thesis
      by (simp add: mean_output_def Finite num_div_def)
  next
    case NegInfinity
    then show ?thesis by (simp add: mean_output_def num_div_def num_le_def)
  qed (use t in \<open>simp_all add: num_le_def\<close>)
qed

lemma difference_nonnegative:
  assumes "num_le avg (Finite m)"
  shows "is_nonnegative (num_sub (Finite m) avg)"
proof (cases avg)
  case (Finite a)
  with assms have "0 \<le> m - a" by (simp add: num_le_def)
  from round_double_nonneg [OF this] show ?thesis
    by (auto simp: Finite num_sub_def)
qed (use assms in \<open>simp_all add: num_le_def num_sub_def\<close>)


section \<open>Worked values\<close>

lemma parse_24_5: "parseFloat ''24.5'' = Finite (49 / 2)"
proof -
  have "round_double (49 / 2) = Finite (49 / 2)"
    by (rule round_double_evalI [where k = 4 and n = 6896136929411072])
       (simp_all add: round_half_even_numeral_int)
  then show ?thesis by (simp add: parse_simps)
qed

lemma parse_24_2: "parseFloat ''24.2'' = Finite (6811694436397875 / 281474976710656)"
proof -
  have "round_double (121 / 5) = Finite (6811694436397875 / 281474976710656)"
    by (rule round_double_evalI [where k = 4 and n = 6811694436397875])
       (simp_all add: round_half_even_numeral)
  then show ?thesis by (simp add: parse_simps)
qed

lemma parse_24_0: "parseFloat ''24.0'' = Finite 24"
proof -
  have "round_double 24 = Finite 24"
    by (rule round_double_evalI [where k = 4 and n = 6755399441055744])
       (simp_all add: round_half_even_numeral_int)
  then show ?thesis by (simp add: parse_simps)
qed

lemma sum_24_5: "num_add (Finite 0) (Finite (49 / 2)) = Finite (49 / 2)"
proof -
  have "round_double (49 / 2) = Finite (49 / 2)"
    by (rule round_double_evalI [where k = 4 and n = 6896136929411072])
       (simp_all add: round_half_even_numeral_int)
  then show ?thesis by simp
qed

lemma sum_24_2:
  "num_add (Finite (49 / 2)) (Finite (6811694436397875 / 281474976710656))
     = Finite (3426957841452237 / 70368744177664)"
proof -
  have "round_double (13707831365808947 / 281474976710656) = Finite (3426957841452237 / 70368744177664)"
    by (rule round_double_evalI [where k = 5 and n = 6853915682904474])
       (simp_all add: round_half_even_numeral)
  then show ?thesis by simp
qed

lemma sum_24_0:
  "num_add (Finite (3426957841452237 / 70368744177664)) (Finite 24)
     = Finite (5115807701716173 / 70368744177664)"
proof -
  have "round_double (5115807701716173 / 70368744177664) = Finite (5115807701716173 / 70368744177664)"
    by (rule round_double_evalI [where k = 6 and n = 5115807701716173])
       (simp_all add: round_half_even_numeral_int)
  then show ?thesis by simp
qed

lemma mean_24:
  "num_div (Finite (5115807701716173 / 70368744177664)) (Finite 3)
     = Finite (1705269233905391 / 70368744177664)"
proof -
  have "round_double (1705269233905391 / 70368744177664) = Finite (1705269233905391 / 70368744177664)"
    by (rule round_double_evalI [where k = 4 and n = 6821076935621564])
       (simp_all add: round_half_even_numeral_int)
  then show ?thesis by (simp add: num_div_def)
qed

lemma savings_24:
  "num_sub (Finite (49 / 2)) (Finite (1705269233905391 / 70368744177664))
     = Finite (18764998447377 / 70368744177664)"
proof -
  have "round_double (18764998447377 / 70368744177664) = Finite (18764998447377 / 70368744177664)"
    by (rule round_double_evalI [where k = "- 2" and n = 4803839602528512])
       (simp_all add: round_half_even_numeral_int)
  then show ?thesis by (simp add: num_sub_def)
qed

lemma toFixed_mean_24: "toFixed 6 (Finite (1705269233905391 / 70368744177664)) = ''24.233333''"
  by (simp add: toFixed_def Let_def floor_rat_numeral)

lemma toFixed_savings_24: "toFixed 6 (Finite (18764998447377 / 70368744177664)) = ''0.266667''"
  by (simp add: toFixed_def Let_def floor_rat_numeral)

lemma sort_24:
  assumes "outputAmount a = Finite (49 / 2)"
    and "outputAmount b = Finite (6811694436397875 / 281474976710656)"
    and "outputAmount c = Finite 24"
    and "mset [x, y, z] = mset [a, b, c]"
  shows "Array_sort higher_output [x, y, z] = [a, b, c]"
proof -
  have h: "higher_output a b" "higher_output a c" "higher_output b c"
    "\<not> higher_output b a" "\<not> higher_output c a" "\<not> higher_output c b"
    "\<not> higher_output a a" "\<not> higher_output b b" "\<not> higher_output c c"
    by (simp_all add: higher_output_iff assms(1-3) num_le_def)
  have d: "distinct [a, b, c]" using assms(1-3) by auto
  then have d': "distinct [x, y, z]"
    using mset_eq_imp_distinct_iff [OF assms(4)] by blast
  have "set [x, y, z] = set [a, b, c]"
    using assms(4) by (rule mset_eq_setD)
  then have "x \<in> {a, b, c}" "y \<in> {a, b, c}" "z \<in> {a, b, c}" "a \<in> {x, y, z}"
    "b \<in> {x, y, z}" "c \<in> {x, y, z}"
    by auto
  with d d' consider
    "x = a \<and> y = b \<and> z = c" | "x = a \<and> y = c \<and> z = b" | "x = b \<and> y = a \<and> z = c"
    | "x = b \<and> y = c \<and> z = a" | "x = c \<and> y = a \<and> z = b" | "x = c \<and> y = b \<and> z = a"
    by (simp only: distinct.simps list.set insert_iff empty_iff) blast
  then show ?thesis
    by cases (simp_all add: Array_sort_def h)
qed

lemma parse_abc: "parseFloat ''abc'' = NaN"
  by (simp add: parse_simps)

lemma parse_NaN: "parseFloat ''NaN'' = NaN"
  by (simp add: parse_simps)

lemma offline_quote_fails:
  "getSaucerSwapQuote (DeFiAggregator_sources offline_chain) ti to am = Fulfilled None"
proof -
  have "\<exists>e. SaucerSwapTools_getQuote offline_chain ti to am None = Inl e"
    by (simp add: SaucerSwapTools_getQuote_def offline_chain_def rethrow_def Let_def
        split: sum.split)
  then show ?thesis by (auto simp: DeFiAggregator_sources_def)
qed

lemma mock_quote_converted:
  assumes "ToString am = Inr s"
  shows "\<exists>q. mock_quote dexName rate impact ti to am = Inr q
           \<and> expectedAmount (tokenOut q) = toFixed 6 (num_mul (parseFloat s) rate)"
  by (simp add: mock_quote_def assms)

lemma mock_quote_rejected:
  assumes "ToString am = Inl e"
  shows "mock_quote dexName rate impact ti to am = Inl e"
  by (simp add: mock_quote_def assms)

lemma mock_output_abc:
  assumes "mock_quote dexName rate impact ti to (JStr ''abc'') = Inr q"
  shows "expectedAmount (tokenOut q) = ''NaN''" "outputAmount q = NaN"
proof -
  from mock_quote_converted [of "JStr ''abc''" "''abc''" dexName rate impact ti to] assms
  show "expectedAmount (tokenOut q) = ''NaN''"
    by (simp add: parse_abc toFixed_def)
  then show "outputAmount q = NaN"
    by (simp add: outputAmount_def parse_NaN)
qed

lemma savings_abc:
  "map_sum id savings
     (DeFiAggregator_findBestRate (DeFiAggregator_sources offline_chain)
        ''2024-01-15T10:30:00.000Z'' (JStr ''HBAR'') (JStr ''USDC'') (JStr ''abc'')) = Inr ''NaN''"
proof -
  let ?s = "DeFiAggregator_sources offline_chain"
  let ?ti = "JStr ''HBAR''" and ?to = "JStr ''USDC''" and ?am = "JStr ''abc''"
  have c: "ToString ?am = Inr ''abc''" by simp
  from mock_quote_converted [OF c] obtain h
    where h: "mock_quote ''HeliSwap'' (decimal_value 98 (- 2)) ''0.1%'' ?ti ?to ?am = Inr h"
    by blast
  from mock_quote_converted [OF c] obtain p
    where p: "mock_quote ''Pangolin'' (decimal_value 97 (- 2)) ''0.2%'' ?ti ?to ?am = Inr p"
    by blast
  note oh = mock_output_abc [OF h] and op = mock_output_abc [OF p]
  have v: "List.map_filter fulfilled_value
      [getSaucerSwapQuote ?s ?ti ?to ?am, getHeliSwapQuote ?s ?ti ?to ?am,
       getPangolinQuote ?s ?ti ?to ?am] = [h, p]"
    unfolding offline_quote_fails
    by (simp add: DeFiAggregator_sources_def settle_def h p List.map_filter_simps fulfilled_value_def)
  have "\<not> higher_output p h"
    by (simp add: higher_output_def oh(2) op(2) num_sub_def)
  then have s: "Array_sort higher_output [h, p] = [h, p]"
    by (simp only: Array_sort_two if_False)
  have m: "mean_output [h, p] = NaN"
    by (simp add: mean_output_simps oh(2) op(2) num_div_def)
  have "DeFiAggregator_findBestRate ?s ''2024-01-15T10:30:00.000Z'' ?ti ?to ?am
    = Inr \<lparr>bestQuote = [h, p] ! 0, allQuotes = [h, p], averageRate = toFixed 6 NaN,
         savings = toFixed 6 (num_sub (outputAmount ([h, p] ! 0)) NaN),
         dexCount = length [h, p], rate_timestamp = ''2024-01-15T10:30:00.000Z''\<rparr>"
    using findBestRate_quotes [OF v] by (simp only: s m list.distinct simp_thms)
  then show ?thesis
    by (simp add: num_sub_def oh(2) toFixed_def)
qed

lemma round_x: "round_double 6004799503160666 = Finite 6004799503160666"
  by (rule round_double_evalI [where k = 52 and n = 6004799503160666])
     (simp_all add: round_half_even_numeral_int)

lemma round_2x: "round_double 12009599006321332 = Finite 12009599006321332"
  by (rule round_double_evalI [where k = 53 and n = 6004799503160666])
     (simp_all add: round_half_even_numeral_int)

lemma round_3x: "round_double 18014398509481998 = Finite 18014398509482000"
  by (rule round_double_evalI [where k = 54 and n = 4503599627370500])
     (simp_all add: round_half_even_numeral)

lemma round_mean_x: "round_double (18014398509482000 / 3) = Finite 6004799503160667"
  by (rule round_double_evalI [where k = 52 and n = 6004799503160667])
     (simp_all add: round_half_even_numeral)

lemma round_1: "round_double 1 = Finite 1"
  by (rule round_double_evalI [where k = 0 and n = 4503599627370496])
     (simp_all add: round_half_even_numeral_int)

lemma round_minus_1: "round_double (- 1) = Finite (- 1)"
  using round_double_minus [of 1] by (simp add: round_1)

lemma savings_equal_quotes:
  "map_sum id savings
     (DeFiAggregator_findBestRate
        (fixed_sources (Fulfilled (Some (plain_quote ''SaucerSwap'' ''6004799503160666'')))
           (Fulfilled (Some (plain_quote ''HeliSwap'' ''6004799503160666'')))
           (Fulfilled (Some (plain_quote ''Pangolin'' ''6004799503160666''))))
        ''2024-01-15T10:30:00.000Z'' (JStr ''HBAR'') (JStr ''USDC'') (JStr ''25'')) = Inr ''-1.000000''"
proof -
  let ?a = "plain_quote ''SaucerSwap'' ''6004799503160666''"
  let ?b = "plain_quote ''HeliSwap'' ''6004799503160666''"
  let ?c = "plain_quote ''Pangolin'' ''6004799503160666''"
  let ?s = "fixed_sources (Fulfilled (Some ?a)) (Fulfilled (Some ?b)) (Fulfilled (Some ?c))"
  have p: "parseFloat ''6004799503160666'' = Finite 6004799503160666"
    using round_x by (simp add: parse_simps)
  have o: "outputAmount (plain_quote d ''6004799503160666'') = Finite 6004799503160666" for d
    by (simp add: outputAmount_def plain_quote_def p)
  have z: "round_double 0 = Finite 0" by (simp add: round_double_def)
  have v: "List.map_filter fulfilled_value
      [getSaucerSwapQuote ?s (JStr ''HBAR'') (JStr ''USDC'') (JStr ''25''), getHeliSwapQuote ?s (JStr ''HBAR'') (JStr ''USDC'') (JStr ''25''),
       getPangolinQuote ?s (JStr ''HBAR'') (JStr ''USDC'') (JStr ''25'')] = [?a, ?b, ?c]"
    by (simp add: fixed_sources_def List.map_filter_simps fulfilled_value_def)
  have "\<not> higher_output (plain_quote d ''6004799503160666'') (plain_quote e ''6004799503160666'')"
    for d e
    by (simp add: higher_output_def o num_sub_def z)
  then have s: "Array_sort higher_output [?a, ?b, ?c] = [?a, ?b, ?c]"
    by (intro Array_sort_three_sorted)
  have m: "mean_output [?a, ?b, ?c] = Finite 6004799503160667"
    by (simp add: mean_output_simps o round_x round_2x round_3x round_mean_x num_div_def)
  have "DeFiAggregator_findBestRate ?s ''2024-01-15T10:30:00.000Z'' (JStr ''HBAR'') (JStr ''USDC'') (JStr ''25'')
    = Inr \<lparr>bestQuote = [?a, ?b, ?c] ! 0, allQuotes = [?a, ?b, ?c],
         averageRate = toFixed 6 (Finite 6004799503160667),
         savings = toFixed 6 (num_sub (outputAmount ([?a, ?b, ?c] ! 0)) (Finite 6004799503160667)),
         dexCount = length [?a, ?b, ?c], rate_timestamp = ''2024-01-15T10:30:00.000Z''\<rparr>"
    using findBestRate_quotes [OF v] by (simp only: s m list.distinct simp_thms)
  moreover have "num_sub (outputAmount ([?a, ?b, ?c] ! 0)) (Finite 6004799503160667) = Finite (- 1)"
    by (simp add: num_sub_def o round_minus_1)
  moreover have "toFixed 6 (Finite (- 1)) = ''-1.000000''"
    by (simp add: toFixed_def Let_def floor_rat_numeral)
  ultimately show ?thesis by simp
qed









section \<open>Properties of the dispatcher\<close>

lemma names_ListTools: "map name ListTools = tool_names"
  by (simp add: ListTools_def tool_names_def)

lemma call_handler_unknown:
  assumes "name' \<notin> set tool_names"
  shows "call_handler this name' args = Inl (ErrorObj (''Unknown tool: '' @ name'))"
proof -
  from assms have
    "name' \<noteq> ''hedera_get_balance''" "name' \<noteq> ''hedera_transfer_hbar''"
    "name' \<noteq> ''saucerswap_get_quote''" "name' \<noteq> ''saucerswap_execute_swap''"
    "name' \<noteq> ''saucerswap_add_liquidity''" "name' \<noteq> ''hts_create_token''"
    "name' \<noteq> ''hts_mint_token''" "name' \<noteq> ''defi_find_best_rate''"
    "name' \<noteq> ''defi_optimize_portfolio''"
    by (auto simp: tool_names_def)
  then show ?thesis
    unfolding call_handler_def by (simp only: if_False)
qed

lemma constant_tools_sel:
  "getBalance (constant_tools v) a1 = v"
  "transferHBAR (constant_tools v) a1 a2 a3 a4 = v"
  "getQuote (constant_tools v) a1 a2 a3 a4 = v"
  "executeSwap (constant_tools v) a1 a2 a3 a4 a5 = v"
  "addLiquidity (constant_tools v) a1 a2 a3 a4 a5 = v"
  "createToken (constant_tools v) a1 a2 a3 a4 a5 = v"
  "mintToken (constant_tools v) a1 a2 a3 = v"
  "findBestRate (constant_tools v) a1 a2 a3 = v"
  "optimizePortfolio (constant_tools v) a1 a2 = v"
  by (simp_all add: constant_tools_def)

lemma call_handler_constant_lit:
  "call_handler (constant_tools v) ''hedera_get_balance'' args = v"
  "call_handler (constant_tools v) ''hedera_transfer_hbar'' args = v"
  "call_handler (constant_tools v) ''saucerswap_get_quote'' args = v"
  "call_handler (constant_tools v) ''saucerswap_execute_swap'' args = v"
  "call_handler (constant_tools v) ''saucerswap_add_liquidity'' args = v"
  "call_handler (constant_tools v) ''hts_create_token'' args = v"
  "call_handler (constant_tools v) ''hts_mint_token'' args = v"
  "call_handler (constant_tools v) ''defi_find_best_rate'' args = v"
  "call_handler (constant_tools v) ''defi_optimize_portfolio'' args = v"
  by (simp_all add: call_handler_def constant_tools_sel)

lemma call_handler_constant:
  "call_handler (constant_tools v) name' args =
     (if name' \<in> set tool_names then v else Inl (ErrorObj (''Unknown tool: '' @ name')))"
proof (cases "name' \<in> set tool_names")
  case True
  then have "call_handler (constant_tools v) name' args = v"
    unfolding tool_names_def set_simps insert_iff empty_iff
    by (elim disjE) (simp_all only: call_handler_constant_lit)
  with True show ?thesis by simp
next
  case False
  then show ?thesis by (simp add: call_handler_unknown)
qed

lemma CallTool_returns: "\<exists>r. CallTool this stringify name' args = Inr r"
  by (simp add: CallTool_def split: sum.split)

text \<open>
  C1. In a \<open>tools/call\<close> of a catalogued operation with an argument object, a handler
  that throws makes the dispatcher return the response whose text is \<open>Error: \<close>
  followed by the message of the thrown error; and whatever the request is, the
  dispatcher returns a response and lets no exception out.
\<close>

theorem handler_failure_is_reported:
  assumes "name' \<in> set (map name ListTools)"
    and "call_handler this name' (JObj kvs) = Inl e"
  shows "CallTool this stringify name' (JObj kvs) = Inr (failure (message_of e))
         \<and> (\<forall>n a. \<exists>r. CallTool this stringify n a = Inr r)"
  using assms(2) CallTool_returns [of this stringify]
  by (simp add: CallTool_def try_call_def failure_def)

theorem handler_failure_is_reported_witness:
  "''hedera_get_balance'' \<in> set (map name ListTools)
   \<and> call_handler (constant_tools (Inl (ErrorObj ''Failed to get balance for account 0.0.1: timeout'')))
        ''hedera_get_balance'' (JObj [(''accountId'', JStr ''0.0.1'')])
      = (Inl (ErrorObj ''Failed to get balance for account 0.0.1: timeout'') :: thrown + unit)
   \<and> CallTool (constant_tools (Inl (ErrorObj ''Failed to get balance for account 0.0.1: timeout'')))
        (\<lambda>u::unit. Inr ''null'') ''hedera_get_balance'' (JObj [(''accountId'', JStr ''0.0.1'')])
      = Inr \<lparr>content = [\<lparr>type = ''text'',
               text' = ''Error: Failed to get balance for account 0.0.1: timeout''\<rparr>]\<rparr>"
proof -
  let ?e = "ErrorObj ''Failed to get balance for account 0.0.1: timeout''"
  let ?srv = "constant_tools (Inl ?e) :: unit tools"
  let ?kvs = "[(''accountId'', JStr ''0.0.1'')]"
  have n: "''hedera_get_balance'' \<in> set (map name ListTools)"
    by (simp add: ListTools_def)
  have h: "call_handler ?srv ''hedera_get_balance'' (JObj ?kvs) = Inl ?e"
    by (rule call_handler_constant_lit)
  from handler_failure_is_reported [OF n h, of "\<lambda>u. Inr ''null''"] n h
  show ?thesis by (simp add: failure_def)
qed

text \<open>
  C2. A name outside the catalogue, with any argument object, gets the failure response
  \<open>Error: Unknown tool: <name>\<close>; so does \<open>nonexistent_tool\<close> with the empty object.
\<close>

theorem unknown_tool_fails:
  "(name' \<notin> set (map name ListTools) \<longrightarrow>
      CallTool this stringify name' (JObj kvs) = Inr (failure (''Unknown tool: '' @ name')))
   \<and> CallTool this stringify ''nonexistent_tool'' (JObj []) =
       Inr \<lparr>content = [\<lparr>type = ''text'', text' = ''Error: Unknown tool: nonexistent_tool''\<rparr>]\<rparr>"
proof -
  have u: "CallTool this stringify n (JObj m) = Inr (failure (''Unknown tool: '' @ n))"
    if "n \<notin> set tool_names" for n m
    using call_handler_unknown [OF that, of this "JObj m"]
    by (simp add: CallTool_def try_call_def failure_def)
  have "''nonexistent_tool'' \<notin> set tool_names"
    by (simp add: tool_names_def)
  from u [OF this, of "[]"] u [of name' kvs] show ?thesis
    by (simp add: names_ListTools failure_def)
qed

theorem unknown_tool_fails_witness:
  "''hedera_get_balancE'' \<notin> set (map name ListTools)
   \<and> CallTool recording_tools method_name ''hedera_get_balancE'' (JObj [(''accountId'', JStr ''0.0.1'')])
       = Inr \<lparr>content = [\<lparr>type = ''text'', text' = ''Error: Unknown tool: hedera_get_balancE''\<rparr>]\<rparr>"
proof -
  have n: "''hedera_get_balancE'' \<notin> set (map name ListTools)"
    by (simp add: ListTools_def)
  from unknown_tool_fails [of "''hedera_get_balancE''" recording_tools method_name
      "[(''accountId'', JStr ''0.0.1'')]"] n
  show ?thesis by (simp add: failure_def)
qed



text \<open>
  C4. The catalogue is a constant list of nine descriptors with distinct names, and the
  names are exactly those the dispatcher routes: with tool objects that answer every call
  by \<open>v\<close>, the switch yields \<open>v\<close> for a catalogued name and the \<open>Unknown tool\<close> error
  for any other.
\<close>

theorem catalogue_matches_dispatch:
  "map name ListTools =
     [''hedera_get_balance'', ''hedera_transfer_hbar'', ''saucerswap_get_quote'',
      ''saucerswap_execute_swap'', ''saucerswap_add_liquidity'', ''hts_create_token'',
      ''hts_mint_token'', ''defi_find_best_rate'', ''defi_optimize_portfolio'']
   \<and> ListTools \<noteq> [] \<and> distinct (map name ListTools)
   \<and> (\<forall>n args v. call_handler (constant_tools v) n args =
         (if n \<in> set (map name ListTools) then v else Inl (ErrorObj (''Unknown tool: '' @ n))))"
proof -
  have 1: "map name ListTools = tool_names" by (rule names_ListTools)
  have 2: "distinct tool_names" by (simp add: tool_names_def)
  have 3: "ListTools \<noteq> []" by (simp add: ListTools_def)
  have 4: "call_handler (constant_tools v) n args =
      (if n \<in> set tool_names then v else Inl (ErrorObj (''Unknown tool: '' @ n)))"
    for n args and v :: "thrown + 'a"
    by (rule call_handler_constant)
  from 2 3 4 show ?thesis
    unfolding 1 by (simp add: tool_names_def)
qed

theorem catalogue_matches_dispatch_witness:
  "call_handler (constant_tools (Inr (1::nat))) ''defi_find_best_rate'' (JObj []) = Inr 1
   \<and> call_handler (constant_tools (Inr (1::nat))) ''defi_best_rate'' (JObj [])
       = Inl (ErrorObj ''Unknown tool: defi_best_rate'')"
proof -
  have a: "''defi_find_best_rate'' \<in> set (map name ListTools)" by (simp add: ListTools_def)
  have b: "''defi_best_rate'' \<notin> set (map name ListTools)" by (simp add: ListTools_def)
  from catalogue_matches_dispatch have
    "\<forall>n args v. call_handler (constant_tools (v :: thrown + nat)) n args =
       (if n \<in> set (map name ListTools) then v else Inl (ErrorObj (''Unknown tool: '' @ n)))"
    by blast
  with a b show ?thesis by simp
qed

section \<open>Properties of the aggregator\<close>

text \<open>
  C5. When the three quote requests succeed with the output amounts \<open>24.5\<close>, \<open>24.2\<close>
  and \<open>24.0\<close>, in whatever order the sources deliver them, the best quote is the one
  with \<open>24.5\<close>, the quotes are listed in descending order, and the reported average is
  \<open>24.233333\<close> (the savings figure is \<open>0.266667\<close>). In general, when no output amount
  is \<open>NaN\<close>, the listed quotes are the surviving quotes in descending order of output
  amount and the best quote is the first of them, whose output no other exceeds.
\<close>

theorem best_rate_is_highest_output:
  "(getSaucerSwapQuote this ti to am = Fulfilled (Some x)
      \<and> getHeliSwapQuote this ti to am = Fulfilled (Some y)
      \<and> getPangolinQuote this ti to am = Fulfilled (Some z)
      \<and> mset [x, y, z] = mset [a, b, c]
      \<and> expectedAmount (tokenOut a) = ''24.5''
      \<and> expectedAmount (tokenOut b) = ''24.2''
      \<and> expectedAmount (tokenOut c) = ''24.0''
    \<longrightarrow> DeFiAggregator_findBestRate this clock ti to am =
          Inr \<lparr>bestQuote = a, allQuotes = [a, b, c], averageRate = ''24.233333'',
               savings = ''0.266667'', dexCount = 3, rate_timestamp = clock\<rparr>)
   \<and> (DeFiAggregator_findBestRate this clock ti to am = Inr r
      \<and> (\<forall>q \<in> set (allQuotes r). outputAmount q \<noteq> NaN)
    \<longrightarrow> sorted_wrt (\<lambda>p q. num_le (outputAmount q) (outputAmount p)) (allQuotes r)
        \<and> mset (allQuotes r) = mset (List.map_filter fulfilled_value
              [getSaucerSwapQuote this ti to am, getHeliSwapQuote this ti to am,
               getPangolinQuote this ti to am])
        \<and> bestQuote r = hd (allQuotes r)
        \<and> (\<forall>q \<in> set (allQuotes r). num_le (outputAmount q) (outputAmount (bestQuote r))))"
proof (intro conjI impI)
  assume h: "getSaucerSwapQuote this ti to am = Fulfilled (Some x)
      \<and> getHeliSwapQuote this ti to am = Fulfilled (Some y)
      \<and> getPangolinQuote this ti to am = Fulfilled (Some z)
      \<and> mset [x, y, z] = mset [a, b, c]
      \<and> expectedAmount (tokenOut a) = ''24.5''
      \<and> expectedAmount (tokenOut b) = ''24.2''
      \<and> expectedAmount (tokenOut c) = ''24.0''"
  then have o: "outputAmount a = Finite (49 / 2)"
    "outputAmount b = Finite (6811694436397875 / 281474976710656)"
    "outputAmount c = Finite 24"
    by (simp_all add: outputAmount_def parse_24_5 parse_24_2 parse_24_0)
  from h have v: "List.map_filter fulfilled_value
      [getSaucerSwapQuote this ti to am, getHeliSwapQuote this ti to am,
       getPangolinQuote this ti to am] = [x, y, z]"
    by (simp add: List.map_filter_simps fulfilled_value_def)
  from h have s: "Array_sort higher_output [x, y, z] = [a, b, c]"
    by (intro sort_24 o) simp
  have m: "mean_output [a, b, c] = Finite (1705269233905391 / 70368744177664)"
    by (simp only: mean_output_simps o sum_24_5 sum_24_2 sum_24_0 mean_24)
  have d: "num_sub (outputAmount a) (Finite (1705269233905391 / 70368744177664))
      = Finite (18764998447377 / 70368744177664)"
    by (simp only: o savings_24)
  have "DeFiAggregator_findBestRate this clock ti to am =
      Inr \<lparr>bestQuote = [a, b, c] ! 0, allQuotes = [a, b, c],
           averageRate = toFixed 6 (mean_output [a, b, c]),
           savings = toFixed 6 (num_sub (outputAmount ([a, b, c] ! 0)) (mean_output [a, b, c])),
           dexCount = length [x, y, z], rate_timestamp = clock\<rparr>"
    using findBestRate_quotes [OF v] by (simp only: s list.distinct simp_thms)
  then show "DeFiAggregator_findBestRate this clock ti to am =
      Inr \<lparr>bestQuote = a, allQuotes = [a, b, c], averageRate = ''24.233333'',
           savings = ''0.266667'', dexCount = 3, rate_timestamp = clock\<rparr>"
    by (simp add: m d toFixed_mean_24 toFixed_savings_24)
next
  assume h: "DeFiAggregator_findBestRate this clock ti to am = Inr r
      \<and> (\<forall>q \<in> set (allQuotes r). outputAmount q \<noteq> NaN)"
  then have r: "DeFiAggregator_findBestRate this clock ti to am = Inr r"
    and n: "\<forall>q \<in> set (allQuotes r). outputAmount q \<noteq> NaN"
    by blast+
  show "sorted_wrt (\<lambda>p q. num_le (outputAmount q) (outputAmount p)) (allQuotes r)"
    by (rule quotes_sorted(1) [OF r n])
  show "mset (allQuotes r) = mset (List.map_filter fulfilled_value
      [getSaucerSwapQuote this ti to am, getHeliSwapQuote this ti to am,
       getPangolinQuote this ti to am])"
    by (rule quotes_sorted(2) [OF r n])
  show "bestQuote r = hd (allQuotes r)"
    by (rule best_is_head(2) [OF r])
  show "\<forall>q \<in> set (allQuotes r). num_le (outputAmount q) (outputAmount (bestQuote r))"
    by (rule quotes_sorted(3) [OF r n])
qed

theorem best_rate_is_highest_output_witness:
  "DeFiAggregator_findBestRate
     (fixed_sources (Fulfilled (Some (plain_quote ''SaucerSwap'' ''24.2'')))
        (Fulfilled (Some (plain_quote ''HeliSwap'' ''24.0'')))
        (Fulfilled (Some (plain_quote ''Pangolin'' ''24.5''))))
     ''2024-01-15T10:30:00.000Z'' (JStr ''HBAR'') (JStr ''USDC'') (JStr ''25'')
   = Inr \<lparr>bestQuote = plain_quote ''Pangolin'' ''24.5'',
          allQuotes = [plain_quote ''Pangolin'' ''24.5'', plain_quote ''SaucerSwap'' ''24.2'',
                       plain_quote ''HeliSwap'' ''24.0''],
          averageRate = ''24.233333'', savings = ''0.266667'', dexCount = 3,
          rate_timestamp = ''2024-01-15T10:30:00.000Z''\<rparr>
   \<and> sorted_wrt (\<lambda>p q. num_le (outputAmount q) (outputAmount p))
        [plain_quote ''Pangolin'' ''24.5'', plain_quote ''SaucerSwap'' ''24.2'',
         plain_quote ''HeliSwap'' ''24.0'']"
proof -
  let ?a = "plain_quote ''Pangolin'' ''24.5''"
  let ?b = "plain_quote ''SaucerSwap'' ''24.2''"
  let ?c = "plain_quote ''HeliSwap'' ''24.0''"
  let ?s = "fixed_sources (Fulfilled (Some ?b)) (Fulfilled (Some ?c)) (Fulfilled (Some ?a))"
  let ?r = "\<lparr>bestQuote = ?a, allQuotes = [?a, ?b, ?c], averageRate = ''24.233333'',
             savings = ''0.266667'', dexCount = 3,
             rate_timestamp = ''2024-01-15T10:30:00.000Z''\<rparr>"
  have e: "expectedAmount (tokenOut (plain_quote d v)) = v" for d v
    by (simp add: plain_quote_def)
  have g: "getSaucerSwapQuote ?s (JStr ''HBAR'') (JStr ''USDC'') (JStr ''25'') = Fulfilled (Some ?b)"
    "getHeliSwapQuote ?s (JStr ''HBAR'') (JStr ''USDC'') (JStr ''25'') = Fulfilled (Some ?c)"
    "getPangolinQuote ?s (JStr ''HBAR'') (JStr ''USDC'') (JStr ''25'') = Fulfilled (Some ?a)"
    by (simp_all add: fixed_sources_def)
  have p: "mset [?b, ?c, ?a] = mset [?a, ?b, ?c]" by simp
  note t = best_rate_is_highest_output [of ?s "JStr ''HBAR''" "JStr ''USDC''" "JStr ''25''" ?b ?c ?a ?a ?b ?c
      "''2024-01-15T10:30:00.000Z''" ?r]
  from t g p e have 1: "DeFiAggregator_findBestRate ?s ''2024-01-15T10:30:00.000Z''
      (JStr ''HBAR'') (JStr ''USDC'') (JStr ''25'') = Inr ?r"
    by blast
  have "\<forall>q \<in> set (allQuotes ?r). outputAmount q \<noteq> NaN"
    by (simp add: outputAmount_def e parse_24_5 parse_24_2 parse_24_0)
  with t 1 have "sorted_wrt (\<lambda>p q. num_le (outputAmount q) (outputAmount p)) (allQuotes ?r)"
    by blast
  with 1 show ?thesis by simp
qed

text \<open>
  C6. When exactly one of the three quote requests yields a quote, the operation
  succeeds: that quote is the best quote and the only listed one, and the reported
  average is its own output amount (printed with six decimals).
\<close>

theorem single_surviving_quote:
  assumes "filter has_quote [getSaucerSwapQuote this ti to am, getHeliSwapQuote this ti to am,
      getPangolinQuote this ti to am] = [Fulfilled (Some q)]"
  shows "DeFiAggregator_findBestRate this clock ti to am =
    Inr \<lparr>bestQuote = q, allQuotes = [q],
         averageRate = toFixed 6 (outputAmount q),
         savings = toFixed 6 (num_sub (outputAmount q) (outputAmount q)),
         dexCount = 1, rate_timestamp = clock\<rparr>"
proof -
  have v: "List.map_filter fulfilled_value [getSaucerSwapQuote this ti to am,
      getHeliSwapQuote this ti to am, getPangolinQuote this ti to am] = [q]"
    using assms by (rule valid_quotes_one)
  have m: "num_div (num_add (Finite 0) (outputAmount q)) (Finite 1) = outputAmount q"
    by (rule mean_of_one) (simp add: outputAmount_def is_double_parseFloat)
  show ?thesis
    by (simp add: findBestRate_quotes [OF v] Array_sort_one mean_output_simps m)
qed

theorem single_surviving_quote_witness:
  "filter has_quote
     [getSaucerSwapQuote (fixed_sources (Rejected (ErrorObj ''timeout'')) (Fulfilled None)
          (Fulfilled (Some (plain_quote ''Pangolin'' ''24.5'')))) (JStr ''HBAR'') (JStr ''USDC'') (JStr ''25''),
      getHeliSwapQuote (fixed_sources (Rejected (ErrorObj ''timeout'')) (Fulfilled None)
          (Fulfilled (Some (plain_quote ''Pangolin'' ''24.5'')))) (JStr ''HBAR'') (JStr ''USDC'') (JStr ''25''),
      getPangolinQuote (fixed_sources (Rejected (ErrorObj ''timeout'')) (Fulfilled None)
          (Fulfilled (Some (plain_quote ''Pangolin'' ''24.5'')))) (JStr ''HBAR'') (JStr ''USDC'') (JStr ''25'')]
     = [Fulfilled (Some (plain_quote ''Pangolin'' ''24.5''))]
   \<and> DeFiAggregator_findBestRate
       (fixed_sources (Rejected (ErrorObj ''timeout'')) (Fulfilled None)
          (Fulfilled (Some (plain_quote ''Pangolin'' ''24.5''))))
       ''2024-01-15T10:30:00.000Z'' (JStr ''HBAR'') (JStr ''USDC'') (JStr ''25'')
     = Inr \<lparr>bestQuote = plain_quote ''Pangolin'' ''24.5'',
            allQuotes = [plain_quote ''Pangolin'' ''24.5''],
            averageRate = ''24.500000'', savings = ''0.000000'', dexCount = 1,
            rate_timestamp = ''2024-01-15T10:30:00.000Z''\<rparr>"
proof -
  let ?q = "plain_quote ''Pangolin'' ''24.5''"
  let ?s = "fixed_sources (Rejected (ErrorObj ''timeout'')) (Fulfilled None) (Fulfilled (Some ?q))"
  have f: "filter has_quote [getSaucerSwapQuote ?s (JStr ''HBAR'') (JStr ''USDC'') (JStr ''25''),
      getHeliSwapQuote ?s (JStr ''HBAR'') (JStr ''USDC'') (JStr ''25''), getPangolinQuote ?s (JStr ''HBAR'') (JStr ''USDC'') (JStr ''25'')]
      = [Fulfilled (Some ?q)]"
    by (simp add: fixed_sources_def)
  have o: "outputAmount ?q = Finite (49 / 2)"
    by (simp add: outputAmount_def plain_quote_def parse_24_5)
  have z: "num_sub (Finite (49 / 2)) (Finite (49 / 2)) = Finite 0"
    by (simp add: num_sub_def round_double_def)
  have a: "toFixed 6 (Finite (49 / 2)) = ''24.500000''"
    by (simp add: toFixed_def Let_def floor_rat_numeral)
  have b: "toFixed 6 (Finite 0) = ''0.000000''"
    by (simp add: toFixed_def Let_def eval_nat_numeral)
  from single_surviving_quote [OF f, of "''2024-01-15T10:30:00.000Z''"] f
  show ?thesis by (simp only: o z a b simp_thms)
qed

text \<open>
  C7. When none of the three quote requests yields a quote (each is rejected or settles
  with \<open>null\<close>), \<open>findBestRate\<close> throws, and a server whose \<open>defi_find_best_rate\<close>
  handler is this aggregator answers the call with the failure response carrying the
  message; nothing is thrown past the dispatcher.
\<close>

theorem all_sources_fail:
  assumes "\<not> has_quote (getSaucerSwapQuote this ti to am)"
    and "\<not> has_quote (getHeliSwapQuote this ti to am)"
    and "\<not> has_quote (getPangolinQuote this ti to am)"
    and "get_prop args ''tokenIn'' = ti" "get_prop args ''tokenOut'' = to"
      "get_prop args ''amount'' = am"
    and "findBestRate srv ti to am =
           map_sum id encode (DeFiAggregator_findBestRate this clock ti to am)"
    and "args = JObj kvs"
  shows "DeFiAggregator_findBestRate this clock ti to am =
           Inl (ErrorObj ''Failed to find best rate: No valid quotes found from any DEX'')
         \<and> CallTool srv stringify ''defi_find_best_rate'' args =
           Inr \<lparr>content = [\<lparr>type = ''text'',
             text' = ''Error: Failed to find best rate: No valid quotes found from any DEX''\<rparr>]\<rparr>"
proof -
  have "filter has_quote [getSaucerSwapQuote this ti to am, getHeliSwapQuote this ti to am,
      getPangolinQuote this ti to am] = []"
    using assms(1-3) by simp
  then have a: "DeFiAggregator_findBestRate this clock ti to am =
      Inl (ErrorObj ''Failed to find best rate: No valid quotes found from any DEX'')"
    by (intro findBestRate_no_quotes valid_quotes_none)
  have "call_handler srv ''defi_find_best_rate'' args =
      Inl (ErrorObj ''Failed to find best rate: No valid quotes found from any DEX'')"
    by (simp add: call_handler_def assms(4-7) a)
  then have "CallTool srv stringify ''defi_find_best_rate'' args =
      Inr \<lparr>content = [\<lparr>type = ''text'',
        text' = ''Error: Failed to find best rate: No valid quotes found from any DEX''\<rparr>]\<rparr>"
    by (simp add: CallTool_def try_call_def assms(8))
  with a show ?thesis by simp
qed

theorem all_sources_fail_witness:
  "\<not> has_quote (getSaucerSwapQuote failing_sources (JStr ''HBAR'') (JStr ''USDC'') (JStr ''25''))
   \<and> \<not> has_quote (getHeliSwapQuote failing_sources (JStr ''HBAR'') (JStr ''USDC'') (JStr ''25''))
   \<and> \<not> has_quote (getPangolinQuote failing_sources (JStr ''HBAR'') (JStr ''USDC'') (JStr ''25''))
   \<and> CallTool
        (constant_tools (map_sum id (\<lambda>r. averageRate r)
           (DeFiAggregator_findBestRate failing_sources ''2024-01-15T10:30:00.000Z''
              (JStr ''HBAR'') (JStr ''USDC'') (JStr ''25''))))
        Inr ''defi_find_best_rate''
        (JObj [(''tokenIn'', JStr ''HBAR''), (''tokenOut'', JStr ''USDC''), (''amount'', JStr ''25'')])
     = Inr \<lparr>content = [\<lparr>type = ''text'',
         text' = ''Error: Failed to find best rate: No valid quotes found from any DEX''\<rparr>]\<rparr>"
proof -
  let ?kvs = "[(''tokenIn'', JStr ''HBAR''), (''tokenOut'', JStr ''USDC''), (''amount'', JStr ''25'')]"
  let ?srv = "constant_tools (map_sum id (\<lambda>r. averageRate r)
      (DeFiAggregator_findBestRate failing_sources ''2024-01-15T10:30:00.000Z''
         (JStr ''HBAR'') (JStr ''USDC'') (JStr ''25'')))"
  have s: "\<not> has_quote (getSaucerSwapQuote failing_sources (JStr ''HBAR'') (JStr ''USDC'') (JStr ''25''))"
    and h: "\<not> has_quote (getHeliSwapQuote failing_sources (JStr ''HBAR'') (JStr ''USDC'') (JStr ''25''))"
    and p: "\<not> has_quote (getPangolinQuote failing_sources (JStr ''HBAR'') (JStr ''USDC'') (JStr ''25''))"
    by (simp_all add: failing_sources_def fixed_sources_def)
  have g: "get_prop (JObj ?kvs) ''tokenIn'' = JStr ''HBAR''"
    "get_prop (JObj ?kvs) ''tokenOut'' = JStr ''USDC''"
    "get_prop (JObj ?kvs) ''amount'' = JStr ''25''"
    by simp_all
  have f: "findBestRate ?srv (JStr ''HBAR'') (JStr ''USDC'') (JStr ''25'') =
      map_sum id (\<lambda>r. averageRate r)
        (DeFiAggregator_findBestRate failing_sources ''2024-01-15T10:30:00.000Z''
           (JStr ''HBAR'') (JStr ''USDC'') (JStr ''25''))"
    by (rule constant_tools_sel)
  from all_sources_fail [OF s h p g f refl, of Inr] s h p show ?thesis by blast
qed

text \<open>
  C8, as the specification states it, fails. The dispatcher passes \<open>args.amount\<close> on
  unchecked, and an amount that cannot be converted to a string, such as the object
  \<open>{"toString": null}\<close>, makes \<open>parseFloat\<close> throw in both hard-coded quote methods:
  both requests are rejected, the SaucerSwap quote fails because the amount is not a
  string, no quote survives, and \<open>findBestRate\<close> takes the \<open>No valid quotes found from
  any DEX\<close> branch although the chain answers.
\<close>

theorem mock_quotes_can_reject:
  "getHeliSwapQuote (DeFiAggregator_sources demo_chain)
       (JStr ''0x0000000000000000000000000000000000000000'')
       (JStr ''0x0000000000000000000000000000000000000001'') (JObj [(''toString'', JNull)])
     = Rejected (ErrorObj ''Cannot convert object to primitive value'')
   \<and> getPangolinQuote (DeFiAggregator_sources demo_chain)
       (JStr ''0x0000000000000000000000000000000000000000'')
       (JStr ''0x0000000000000000000000000000000000000001'') (JObj [(''toString'', JNull)])
     = Rejected (ErrorObj ''Cannot convert object to primitive value'')
   \<and> getSaucerSwapQuote (DeFiAggregator_sources demo_chain)
       (JStr ''0x0000000000000000000000000000000000000000'')
       (JStr ''0x0000000000000000000000000000000000000001'') (JObj [(''toString'', JNull)])
     = Fulfilled None
   \<and> DeFiAggregator_findBestRate (DeFiAggregator_sources demo_chain) ''2024-01-15T10:30:00.000Z''
       (JStr ''0x0000000000000000000000000000000000000000'')
       (JStr ''0x0000000000000000000000000000000000000001'') (JObj [(''toString'', JNull)])
     = Inl (ErrorObj ''Failed to find best rate: No valid quotes found from any DEX'')
   \<and> CallTool (aggregator_tools demo_chain) (\<lambda>r. Inr (averageRate r)) ''defi_find_best_rate''
       (JObj [(''tokenIn'', JStr ''0x0000000000000000000000000000000000000000''),
              (''tokenOut'', JStr ''0x0000000000000000000000000000000000000001''),
              (''amount'', JObj [(''toString'', JNull)])])
     = Inr \<lparr>content = [\<lparr>type = ''text'',
         text' = ''Error: Failed to find best rate: No valid quotes found from any DEX''\<rparr>]\<rparr>"
proof -
  let ?s = "DeFiAggregator_sources demo_chain"
  let ?ti = "JStr ''0x0000000000000000000000000000000000000000''"
  let ?to = "JStr ''0x0000000000000000000000000000000000000001''"
  let ?am = "JObj [(''toString'', JNull)]"
  have c: "ToString ?am = Inl (ErrorObj ''Cannot convert object to primitive value'')"
    by (simp add: TypeError_primitive_def)
  have h: "getHeliSwapQuote ?s ?ti ?to ?am
      = Rejected (ErrorObj ''Cannot convert object to primitive value'')"
    and p: "getPangolinQuote ?s ?ti ?to ?am
      = Rejected (ErrorObj ''Cannot convert object to primitive value'')"
    by (simp_all add: DeFiAggregator_sources_def settle_def mock_quote_rejected [OF c])
  have i: "getTokenInfo ?ti = Inr \<lparr>info_symbol = Some ''HBAR'', info_name = Some ''Hedera'',
        info_decimals = Some 8\<rparr>"
    "getTokenInfo ?to = Inr \<lparr>info_symbol = Some ''USDC'', info_name = Some ''USD Coin'',
        info_decimals = Some 6\<rparr>"
    by (simp_all add: getTokenInfo_def toLowerCase_def)
  have q: "SaucerSwapTools_getQuote demo_chain ?ti ?to ?am None
      = Inl (ErrorObj ''Failed to get quote: value must be a string'')"
    unfolding SaucerSwapTools_getQuote_def Let_def i
    by (simp add: demo_chain_def ethers_parseUnits_def rethrow_def)
  have s: "getSaucerSwapQuote ?s ?ti ?to ?am = Fulfilled None"
    by (simp add: DeFiAggregator_sources_def q)
  have "List.map_filter fulfilled_value
      [getSaucerSwapQuote ?s ?ti ?to ?am, getHeliSwapQuote ?s ?ti ?to ?am,
       getPangolinQuote ?s ?ti ?to ?am] = []"
    unfolding s h p by (simp add: List.map_filter_simps fulfilled_value_def)
  then have f: "DeFiAggregator_findBestRate ?s ''2024-01-15T10:30:00.000Z'' ?ti ?to ?am
      = Inl (ErrorObj ''Failed to find best rate: No valid quotes found from any DEX'')"
    by (rule findBestRate_no_quotes)
  have n: "now demo_chain = ''2024-01-15T10:30:00.000Z''"
    by (simp add: demo_chain_def)
  have "call_handler (aggregator_tools demo_chain) ''defi_find_best_rate''
      (JObj [(''tokenIn'', ?ti), (''tokenOut'', ?to), (''amount'', ?am)])
      = Inl (ErrorObj ''Failed to find best rate: No valid quotes found from any DEX'')"
    by (simp add: call_handler_def aggregator_tools_def n f)
  then have "CallTool (aggregator_tools demo_chain) (\<lambda>r. Inr (averageRate r))
      ''defi_find_best_rate'' (JObj [(''tokenIn'', ?ti), (''tokenOut'', ?to), (''amount'', ?am)])
      = Inr \<lparr>content = [\<lparr>type = ''text'',
          text' = ''Error: Failed to find best rate: No valid quotes found from any DEX''\<rparr>]\<rparr>"
    by (simp add: CallTool_def try_call_def)
  with h p s f show ?thesis by (intro conjI)
qed

text \<open>
  C8, amended. For an amount that converts to a string (every string, number and
  boolean, \<open>null\<close>, an absent amount, and the arrays and objects whose conversion does
  not throw), whatever the chain answers and whatever the token arguments are, the
  HeliSwap and Pangolin requests are fulfilled with a quote whose output is \<open>0.98\<close>
  and \<open>0.97\<close> of the parsed amount printed with six decimals (\<open>NaN\<close> for the amount
  \<open>abc\<close>). So \<open>findBestRate\<close> returns a result that lists both and counts two or
  three quotes, and the \<open>No valid quotes found from any DEX\<close> branch is not taken.
\<close>

theorem mock_quotes_survive:
  assumes "ToString am = Inr s"
  shows "\<exists>r h p. DeFiAggregator_findBestRate (DeFiAggregator_sources env) clock ti to am = Inr r
        \<and> 2 \<le> dexCount r \<and> dexCount r \<le> 3
        \<and> getHeliSwapQuote (DeFiAggregator_sources env) ti to am = Fulfilled (Some h)
        \<and> getPangolinQuote (DeFiAggregator_sources env) ti to am = Fulfilled (Some p)
        \<and> h \<in> set (allQuotes r) \<and> p \<in> set (allQuotes r)
        \<and> expectedAmount (tokenOut h) = toFixed 6 (num_mul (parseFloat s) (decimal_value 98 (- 2)))
        \<and> expectedAmount (tokenOut p) = toFixed 6 (num_mul (parseFloat s) (decimal_value 97 (- 2)))"
proof -
  let ?s = "DeFiAggregator_sources env"
  from mock_quote_converted [OF assms] obtain h
    where h: "mock_quote ''HeliSwap'' (decimal_value 98 (- 2)) ''0.1%'' ti to am = Inr h"
      and oh: "expectedAmount (tokenOut h) = toFixed 6 (num_mul (parseFloat s) (decimal_value 98 (- 2)))"
    by blast
  from mock_quote_converted [OF assms] obtain p
    where p: "mock_quote ''Pangolin'' (decimal_value 97 (- 2)) ''0.2%'' ti to am = Inr p"
      and op: "expectedAmount (tokenOut p) = toFixed 6 (num_mul (parseFloat s) (decimal_value 97 (- 2)))"
    by blast
  have gh: "getHeliSwapQuote ?s ti to am = Fulfilled (Some h)"
    and gp: "getPangolinQuote ?s ti to am = Fulfilled (Some p)"
    by (simp_all add: DeFiAggregator_sources_def settle_def h p)
  obtain vs where vs: "List.map_filter fulfilled_value [getSaucerSwapQuote ?s ti to am,
      getHeliSwapQuote ?s ti to am, getPangolinQuote ?s ti to am] = vs" by blast
  have "vs = [h, p] \<or> (\<exists>q. vs = [q, h, p])"
    using vs unfolding gh gp
    by (cases "getSaucerSwapQuote ?s ti to am" rule: has_quote.cases)
       (auto simp: List.map_filter_simps fulfilled_value_def)
  then have l: "vs \<noteq> []" "2 \<le> length vs" "length vs \<le> 3" "h \<in> set vs" "p \<in> set vs"
    by auto
  have "\<exists>r. DeFiAggregator_findBestRate ?s clock ti to am = Inr r
        \<and> 2 \<le> dexCount r \<and> dexCount r \<le> 3 \<and> h \<in> set (allQuotes r) \<and> p \<in> set (allQuotes r)"
    using l by (simp add: findBestRate_quotes [OF vs l(1)] set_Array_sort)
  with gh gp oh op show ?thesis by blast
qed

theorem mock_quotes_survive_witness:
  "ToString (JStr ''abc'') = Inr ''abc''
   \<and> (\<exists>r h p. DeFiAggregator_findBestRate (DeFiAggregator_sources offline_chain)
          ''2024-01-15T10:30:00.000Z'' (JStr ''HBAR'') (JStr ''USDC'') (JStr ''abc'') = Inr r
        \<and> dexCount r = 2
        \<and> getHeliSwapQuote (DeFiAggregator_sources offline_chain)
            (JStr ''HBAR'') (JStr ''USDC'') (JStr ''abc'') = Fulfilled (Some h)
        \<and> getPangolinQuote (DeFiAggregator_sources offline_chain)
            (JStr ''HBAR'') (JStr ''USDC'') (JStr ''abc'') = Fulfilled (Some p)
        \<and> allQuotes r = [h, p]
        \<and> expectedAmount (tokenOut h) = ''NaN'' \<and> expectedAmount (tokenOut p) = ''NaN'')"
proof -
  let ?s = "DeFiAggregator_sources offline_chain"
  let ?ti = "JStr ''HBAR''" and ?to = "JStr ''USDC''" and ?am = "JStr ''abc''"
  have c: "ToString ?am = Inr ''abc''" by simp
  have n: "toFixed 6 (num_mul (parseFloat ''abc'') rate) = ''NaN''" for rate
    by (simp add: parse_abc toFixed_def)
  from mock_quotes_survive [OF c, of offline_chain "''2024-01-15T10:30:00.000Z''" ?ti ?to]
  obtain r h p where r: "DeFiAggregator_findBestRate ?s ''2024-01-15T10:30:00.000Z'' ?ti ?to ?am = Inr r"
    and d: "2 \<le> dexCount r" "dexCount r \<le> 3"
    and h: "getHeliSwapQuote ?s ?ti ?to ?am = Fulfilled (Some h)"
    and p: "getPangolinQuote ?s ?ti ?to ?am = Fulfilled (Some p)"
    and oh: "expectedAmount (tokenOut h) = ''NaN''"
    and op: "expectedAmount (tokenOut p) = ''NaN''"
    unfolding n by blast
  have v: "List.map_filter fulfilled_value
      [getSaucerSwapQuote ?s ?ti ?to ?am, getHeliSwapQuote ?s ?ti ?to ?am,
       getPangolinQuote ?s ?ti ?to ?am] = [h, p]"
    unfolding offline_quote_fails h p
    by (simp add: List.map_filter_simps fulfilled_value_def)
  have "\<not> higher_output p h"
    by (simp add: higher_output_def outputAmount_def oh op parse_NaN num_sub_def)
  then have s: "Array_sort higher_output [h, p] = [h, p]"
    by (simp only: Array_sort_two if_False)
  from findBestRate_quotes [OF v, of "''2024-01-15T10:30:00.000Z''"] r
  have "allQuotes r = [h, p]" "dexCount r = 2"
    by (auto simp: s)
  with c r h p oh op show ?thesis by blast
qed

text \<open>
  C9, as the specification states it, fails. With the quote methods of the class and a
  chain that is down, the amount \<open>abc\<close> gives the savings figure \<open>NaN\<close>; and three
  surviving quotes that all offer \<open>6004799503160666\<close> give the savings figure
  \<open>-1.000000\<close>, because the rounded sum of the three outputs, divided by three, is
  \<open>6004799503160667\<close>.
\<close>

theorem savings_not_always_nonnegative:
  "map_sum id savings
     (DeFiAggregator_findBestRate (DeFiAggregator_sources offline_chain)
        ''2024-01-15T10:30:00.000Z'' (JStr ''HBAR'') (JStr ''USDC'') (JStr ''abc'')) = Inr ''NaN''
   \<and> map_sum id savings
     (DeFiAggregator_findBestRate
        (fixed_sources (Fulfilled (Some (plain_quote ''SaucerSwap'' ''6004799503160666'')))
           (Fulfilled (Some (plain_quote ''HeliSwap'' ''6004799503160666'')))
           (Fulfilled (Some (plain_quote ''Pangolin'' ''6004799503160666''))))
        ''2024-01-15T10:30:00.000Z'' (JStr ''HBAR'') (JStr ''USDC'') (JStr ''25'')) = Inr ''-1.000000''"
  using savings_abc savings_equal_quotes by (rule conjI)

text \<open>
  C9, amended. The savings figure is \<open>toFixed(6)\<close> of the best output minus the mean,
  both in double arithmetic. When every surviving output is a finite number and the
  multiples \<open>k \<times> best\<close>, for \<open>k\<close> up to the number of surviving quotes, are doubles
  (for a single quote this asks nothing more), the mean does not exceed the best output
  and the difference is not negative.
\<close>

theorem savings_nonnegative:
  assumes "DeFiAggregator_findBestRate this clock ti to am = Inr r"
    and "\<forall>q \<in> set (allQuotes r). \<exists>v. outputAmount q = Finite v"
    and "outputAmount (bestQuote r) = Finite best"
    and "\<forall>k \<in> {1..dexCount r}. representable (of_nat k * best)"
  shows "averageRate r = toFixed 6 (mean_output (allQuotes r))
       \<and> savings r = toFixed 6 (num_sub (Finite best) (mean_output (allQuotes r)))
       \<and> num_le (mean_output (allQuotes r)) (Finite best)
       \<and> is_nonnegative (num_sub (Finite best) (mean_output (allQuotes r)))"
proof -
  note b = best_is_head [OF assms(1)]
  have "\<forall>q \<in> set (allQuotes r). outputAmount q \<noteq> NaN"
    using assms(2) by auto
  from quotes_sorted(3) [OF assms(1) this]
  have le: "\<forall>q \<in> set (allQuotes r). num_le (outputAmount q) (Finite best)"
    by (simp add: assms(3))
  have "\<forall>q \<in> set (allQuotes r). \<exists>v. outputAmount q = Finite v \<and> v \<le> best"
  proof
    fix q assume q: "q \<in> set (allQuotes r)"
    with assms(2) obtain v where v: "outputAmount q = Finite v" by blast
    from le q have "num_le (outputAmount q) (Finite best)" by blast
    then have "v \<le> best" by (simp add: v num_le_def)
    with v show "\<exists>v. outputAmount q = Finite v \<and> v \<le> best" by blast
  qed
  moreover have "\<forall>k \<in> {1..length (allQuotes r)}. representable (of_nat k * best)"
    using assms(4) by (simp add: b(3))
  ultimately have m: "num_le (mean_output (allQuotes r)) (Finite best)"
    using b(1) by (intro mean_bound)
  from difference_nonnegative [OF m] m b(4,5) show ?thesis
    by (simp add: assms(3))
qed

theorem savings_nonnegative_witness:
  "DeFiAggregator_findBestRate
     (fixed_sources (Fulfilled None) (Fulfilled (Some (plain_quote ''HeliSwap'' ''24.5'')))
        (Fulfilled (Some (plain_quote ''Pangolin'' ''24.0''))))
     ''2024-01-15T10:30:00.000Z'' (JStr ''HBAR'') (JStr ''USDC'') (JStr ''25'')
   = Inr \<lparr>bestQuote = plain_quote ''HeliSwap'' ''24.5'',
          allQuotes = [plain_quote ''HeliSwap'' ''24.5'', plain_quote ''Pangolin'' ''24.0''],
          averageRate = ''24.250000'', savings = ''0.250000'', dexCount = 2,
          rate_timestamp = ''2024-01-15T10:30:00.000Z''\<rparr>
   \<and> representable (of_nat 1 * (49 / 2)) \<and> representable (of_nat 2 * (49 / 2))
   \<and> num_le (mean_output [plain_quote ''HeliSwap'' ''24.5'', plain_quote ''Pangolin'' ''24.0''])
        (Finite (49 / 2))
   \<and> is_nonnegative (num_sub (Finite (49 / 2))
        (mean_output [plain_quote ''HeliSwap'' ''24.5'', plain_quote ''Pangolin'' ''24.0'']))"
proof -
  let ?a = "plain_quote ''HeliSwap'' ''24.5''"
  let ?c = "plain_quote ''Pangolin'' ''24.0''"
  let ?s = "fixed_sources (Fulfilled None) (Fulfilled (Some ?a)) (Fulfilled (Some ?c))"
  let ?r = "\<lparr>bestQuote = ?a, allQuotes = [?a, ?c], averageRate = ''24.250000'',
             savings = ''0.250000'', dexCount = 2,
             rate_timestamp = ''2024-01-15T10:30:00.000Z''\<rparr>"
  have o: "outputAmount ?a = Finite (49 / 2)" "outputAmount ?c = Finite 24"
    by (simp_all add: outputAmount_def plain_quote_def parse_24_5 parse_24_0)
  have v: "List.map_filter fulfilled_value
      [getSaucerSwapQuote ?s (JStr ''HBAR'') (JStr ''USDC'') (JStr ''25''), getHeliSwapQuote ?s (JStr ''HBAR'') (JStr ''USDC'') (JStr ''25''),
       getPangolinQuote ?s (JStr ''HBAR'') (JStr ''USDC'') (JStr ''25'')] = [?a, ?c]"
    by (simp add: fixed_sources_def List.map_filter_simps fulfilled_value_def)
  have "\<not> higher_output ?c ?a"
    by (simp add: higher_output_iff o num_le_def)
  then have s: "Array_sort higher_output [?a, ?c] = [?a, ?c]"
    by (simp only: Array_sort_two if_False)
  have r1: "round_double (97 / 2) = Finite (97 / 2)"
    by (rule round_double_evalI [where k = 5 and n = 6825768185233408])
       (simp_all add: round_half_even_numeral_int)
  have r2: "round_double (97 / 4) = Finite (97 / 4)"
    by (rule round_double_evalI [where k = 4 and n = 6825768185233408])
       (simp_all add: round_half_even_numeral_int)
  have r3: "round_double (1 / 4) = Finite (1 / 4)"
    by (rule round_double_evalI [where k = "- 2" and n = 4503599627370496])
       (simp_all add: round_half_even_numeral_int)
  have r4: "round_double 49 = Finite 49"
    by (rule round_double_evalI [where k = 5 and n = 6896136929411072])
       (simp_all add: round_half_even_numeral_int)
  have r0: "round_double (49 / 2) = Finite (49 / 2)"
    by (rule round_double_evalI [where k = 4 and n = 6896136929411072])
       (simp_all add: round_half_even_numeral_int)
  have m: "mean_output [?a, ?c] = Finite (97 / 4)"
    by (simp add: mean_output_simps o r0 r1 r2 num_div_def)
  have d: "num_sub (outputAmount ?a) (Finite (97 / 4)) = Finite (1 / 4)"
    by (simp add: o num_sub_def r3)
  have f1: "toFixed 6 (Finite (97 / 4)) = ''24.250000''"
    by (simp add: toFixed_def Let_def floor_rat_numeral)
  have f2: "toFixed 6 (Finite (1 / 4)) = ''0.250000''"
    by (simp add: toFixed_def Let_def floor_rat_numeral)
  have "DeFiAggregator_findBestRate ?s ''2024-01-15T10:30:00.000Z'' (JStr ''HBAR'') (JStr ''USDC'') (JStr ''25'') =
      Inr \<lparr>bestQuote = [?a, ?c] ! 0, allQuotes = [?a, ?c],
           averageRate = toFixed 6 (mean_output [?a, ?c]),
           savings = toFixed 6 (num_sub (outputAmount ([?a, ?c] ! 0)) (mean_output [?a, ?c])),
           dexCount = length [?a, ?c], rate_timestamp = ''2024-01-15T10:30:00.000Z''\<rparr>"
    using findBestRate_quotes [OF v] by (simp only: s list.distinct simp_thms)
  then have 1: "DeFiAggregator_findBestRate ?s ''2024-01-15T10:30:00.000Z'' (JStr ''HBAR'') (JStr ''USDC'') (JStr ''25'')
      = Inr ?r"
    by (simp add: m d f1 f2)
  have 2: "\<forall>q \<in> set (allQuotes ?r). \<exists>v. outputAmount q = Finite v"
  proof
    fix q assume "q \<in> set (allQuotes ?r)"
    then have "q = ?a \<or> q = ?c" by simp
    with o show "\<exists>v. outputAmount q = Finite v" by blast
  qed
  have 3: "outputAmount (bestQuote ?r) = Finite (49 / 2)"
    by (simp add: o)
  have rep: "representable (of_nat 1 * (49 / 2))" "representable (of_nat 2 * (49 / 2))"
    using sum_24_5 r4 by (simp_all add: representable_def)
  have "k = 1 \<or> k = 2" if "k \<in> {1..dexCount ?r}" for k :: nat
    using that by auto
  with rep have 4: "\<forall>k \<in> {1..dexCount ?r}. representable (of_nat k * (49 / 2))"
    by blast
  from savings_nonnegative [OF 1 2 3 4] 1 rep show ?thesis by simp
qed

section \<open>Properties of the SaucerSwap quote\<close>



end
